theory Spec2Isabelle
  imports Complex_Main
begin

section \<open>Strings and regular expressions of the parser\<close>

text \<open>
  A JavaScript string is modelled as a \<^typ>\<open>string\<close>: the list of its code units, each
  below 256; a text with other code units is outside the model (of those, the parser
  singles out only the white space beyond that range). The regular expressions of \<^verbatim>\<open>parseSQL\<close> have no alternation and every
  quantifier in them is followed by a character outside the quantified class, so each has
  at most one way to match at a given start position; each is written out below as the
  scanner that the backtracking matcher performs.
\<close>

text \<open>The class \<^verbatim>\<open>\s\<close> (and what \<^verbatim>\<open>trim\<close> removes): tab, line feed, vertical tab, form
  feed, carriage return, space and no-break space.\<close>

definition isSpace :: "char \<Rightarrow> bool" where
  "isSpace c = (c = CHR 0x09 \<or> c = CHR 0x0A \<or> c = CHR 0x0B \<or> c = CHR 0x0C \<or> c = CHR 0x0D
     \<or> c = CHR 0x20 \<or> c = CHR 0xA0)"

text \<open>The class \<^verbatim>\<open>\w\<close>: ASCII letters, digits and the underscore.\<close>

definition isWord :: "char \<Rightarrow> bool" where
  "isWord c = (let n = (of_char c :: nat) in
     (48 \<le> n \<and> n \<le> 57) \<or> (65 \<le> n \<and> n \<le> 90) \<or> n = 95 \<or> (97 \<le> n \<and> n \<le> 122))"

text \<open>
  \<^verbatim>\<open>toUpperCase\<close> on the letters a to z. The other code units are left as they are: none
  of them is mapped to an ASCII letter, and the results are only compared with ASCII
  words. The same mapping is the canonicalisation of the \<^verbatim>\<open>/i\<close> flag for the ASCII
  patterns used here.
\<close>

definition toUpperChar :: "char \<Rightarrow> char" where
  "toUpperChar c =
     (case map_of (zip ''abcdefghijklmnopqrstuvwxyz'' ''ABCDEFGHIJKLMNOPQRSTUVWXYZ'') c of
        Some u \<Rightarrow> u
      | None \<Rightarrow> c)"

definition toUpperCase :: "string \<Rightarrow> string" where
  "toUpperCase s = map toUpperChar s"

definition trim :: "string \<Rightarrow> string" where
  "trim s = rev (dropWhile isSpace (rev (dropWhile isSpace s)))"

definition startsWith :: "string \<Rightarrow> string \<Rightarrow> bool" where
  "startsWith s p = (take (length p) s = p)"

text \<open>\<^verbatim>\<open>s.split(d)\<close> for a one-character separator; \<open>cur\<close> is the piece being read.\<close>

fun splitOn :: "char \<Rightarrow> string \<Rightarrow> string \<Rightarrow> string list" where
  "splitOn d cur [] = [cur]"
| "splitOn d cur (c # cs) =
     (if c = d then cur # splitOn d [] cs else splitOn d (cur @ [c]) cs)"

text \<open>\<^verbatim>\<open>s.replace(/d/g, '')\<close> for a one-character pattern.\<close>

definition removeAll_char :: "char \<Rightarrow> string \<Rightarrow> string" where
  "removeAll_char d s = List.filter (\<lambda>c. c \<noteq> d) s"

text \<open>\<^verbatim>\<open>s.indexOf(c)\<close>, with -1 when the character does not occur.\<close>

definition indexOf :: "string \<Rightarrow> char \<Rightarrow> int" where
  "indexOf s c = (if c \<in> set s then int (length (takeWhile (\<lambda>x. x \<noteq> c) s)) else - 1)"

text \<open>\<^verbatim>\<open>s.substring(a, b)\<close>: both indices are clamped to the length and swapped when
  \<open>a > b\<close>; \<^verbatim>\<open>s.substring(a)\<close> runs to the end.\<close>

definition substring :: "string \<Rightarrow> nat \<Rightarrow> nat \<Rightarrow> string" where
  "substring s a b =
     (let a' = min a (length s); b' = min b (length s); lo = min a' b'; hi = max a' b'
      in take (hi - lo) (drop lo s))"

definition substringFrom :: "string \<Rightarrow> nat \<Rightarrow> string" where
  "substringFrom s a = drop a s"

text \<open>A literal of a pattern matched at the head of \<open>s\<close> under \<^verbatim>\<open>/i\<close>: the rest of \<open>s\<close>
  after it.\<close>

fun stripPrefixCI :: "string \<Rightarrow> string \<Rightarrow> string option" where
  "stripPrefixCI [] s = Some s"
| "stripPrefixCI (p # ps) [] = None"
| "stripPrefixCI (p # ps) (c # cs) =
     (if toUpperChar c = toUpperChar p then stripPrefixCI ps cs else None)"

text \<open>The text a match consumed, given what is left after it.\<close>

definition consumed :: "string \<Rightarrow> string \<Rightarrow> string" where
  "consumed s rest = take (length s - length rest) s"

text \<open>An unanchored search tries every start position from the left, the end of the
  string included, and keeps the first match.\<close>

fun searchRe :: "(string \<Rightarrow> 'a option) \<Rightarrow> string \<Rightarrow> 'a option" where
  "searchRe m [] = m []"
| "searchRe m (c # cs) = (case m (c # cs) of Some r \<Rightarrow> Some r | None \<Rightarrow> searchRe m cs)"

text \<open>\<^verbatim>\<open>/CREATE\s+TABLE/i\<close> at the head of \<open>s\<close>: the rest after the match.\<close>

definition matchCreateTableAt :: "string \<Rightarrow> string option" where
  "matchCreateTableAt s =
     (case stripPrefixCI ''CREATE'' s of
        None \<Rightarrow> None
      | Some r \<Rightarrow>
          if takeWhile isSpace r = [] then None
          else stripPrefixCI ''TABLE'' (dropWhile isSpace r))"

text \<open>An optional backtick at the head: the text it consumed and the rest.\<close>

definition optBacktick :: "string \<Rightarrow> string \<times> string" where
  "optBacktick s = (case s of [] \<Rightarrow> ([], []) | c # cs \<Rightarrow> if c = CHR ''`'' then ([c], cs) else ([], s))"

text \<open>
  A match result is the array of the whole match and its groups, or \<open>None\<close> for
  \<^verbatim>\<open>null\<close>.
  \<^verbatim>\<open>/^\s*`?(\w+)`?/\<close> on a block and \<^verbatim>\<open>/^`?(\w+)`?/\<close> on a line:
\<close>

definition matchColumnName :: "string \<Rightarrow> string list option" where
  "matchColumnName line =
     (let (q1, r1) = optBacktick line;
          w = takeWhile isWord r1;
          (q2, r2) = optBacktick (dropWhile isWord r1)
      in if w = [] then None else Some [q1 @ w @ q2, w])"

definition matchTableName :: "string \<Rightarrow> string list option" where
  "matchTableName block =
     (let ws = takeWhile isSpace block;
          (q1, r1) = optBacktick (dropWhile isSpace block);
          w = takeWhile isWord r1;
          (q2, r2) = optBacktick (dropWhile isWord r1)
      in if w = [] then None else Some [ws @ q1 @ w @ q2, w])"

text \<open>\<^verbatim>\<open>[^)]+\)\<close> and \<^verbatim>\<open>[^']+'\<close>: a non-empty run up to the first closing character \<open>d\<close>,
  which must be there. The run and the rest after \<open>d\<close>.\<close>

definition runUntil :: "char \<Rightarrow> string \<Rightarrow> (string \<times> string) option" where
  "runUntil d s =
     (let run = takeWhile (\<lambda>c. c \<noteq> d) s; r = dropWhile (\<lambda>c. c \<noteq> d) s
      in if run = [] \<or> r = [] then None else Some (run, tl r))"

text \<open>\<^verbatim>\<open>/^(\w+(?:\([^)]+\))?)/\<close>: the type word with its argument list when one follows.\<close>

definition matchType :: "string \<Rightarrow> string list option" where
  "matchType remaining =
     (let w = takeWhile isWord remaining; r = dropWhile isWord remaining
      in if w = [] then None
         else (case r of
                 [] \<Rightarrow> Some [w, w]
               | c # r1 \<Rightarrow>
                   if c = CHR ''(''
                   then (case runUntil CHR '')'' r1 of
                           None \<Rightarrow> Some [w, w]
                         | Some (args, _) \<Rightarrow>
                             Some [w @ ''('' @ args @ '')'', w @ ''('' @ args @ '')''])
                   else Some [w, w]))"

text \<open>\<^verbatim>\<open>/PRIMARY KEY\s*\(([^)]+)\)/i\<close> at the head of \<open>s\<close>.\<close>

definition matchPrimaryKeyAt :: "string \<Rightarrow> string list option" where
  "matchPrimaryKeyAt s =
     (case stripPrefixCI ''PRIMARY KEY'' s of
        None \<Rightarrow> None
      | Some r \<Rightarrow>
          (case dropWhile isSpace r of
             [] \<Rightarrow> None
           | c # r1 \<Rightarrow>
               if c = CHR ''(''
               then (case runUntil CHR '')'' r1 of
                       None \<Rightarrow> None
                     | Some (cols, rest) \<Rightarrow> Some [consumed s rest, cols])
               else None))"

text \<open>\<^verbatim>\<open>/COMMENT\s*=\s*'([^']+)'/i\<close> at the head of \<open>s\<close>.\<close>

definition matchTableCommentAt :: "string \<Rightarrow> string list option" where
  "matchTableCommentAt s =
     (case stripPrefixCI ''COMMENT'' s of
        None \<Rightarrow> None
      | Some r \<Rightarrow>
          (case dropWhile isSpace r of
             [] \<Rightarrow> None
           | c # r1 \<Rightarrow>
               if c = CHR ''=''
               then (case dropWhile isSpace r1 of
                       [] \<Rightarrow> None
                     | q # r2 \<Rightarrow>
                         if q = CHR 0x27
                         then (case runUntil (CHR 0x27) r2 of
                                 None \<Rightarrow> None
                               | Some (txt, rest) \<Rightarrow> Some [consumed s rest, txt])
                         else None)
               else None))"

text \<open>\<^verbatim>\<open>/COMMENT\s+'([^']+)'/i\<close> at the head of \<open>s\<close>.\<close>

definition matchColumnCommentAt :: "string \<Rightarrow> string list option" where
  "matchColumnCommentAt s =
     (case stripPrefixCI ''COMMENT'' s of
        None \<Rightarrow> None
      | Some r \<Rightarrow>
          if takeWhile isSpace r = [] then None
          else (case dropWhile isSpace r of
                  [] \<Rightarrow> None
                | q # r2 \<Rightarrow>
                    if q = CHR 0x27
                    then (case runUntil (CHR 0x27) r2 of
                            None \<Rightarrow> None
                          | Some (txt, rest) \<Rightarrow> Some [consumed s rest, txt])
                    else None))"

text \<open>\<^verbatim>\<open>/NOT NULL/i.test(line)\<close>.\<close>

definition testNotNull :: "string \<Rightarrow> bool" where
  "testNotNull line = (searchRe (stripPrefixCI ''NOT NULL'') line \<noteq> None)"

text \<open>\<^verbatim>\<open>sql.split(/CREATE\s+TABLE/i)\<close>: the pieces between the matches, found from left
  to right; \<open>cur\<close> is the piece being read. A match is never empty, so the scan goes on
  after it.\<close>

lemma stripPrefixCI_length:
  "stripPrefixCI p s = Some r \<Longrightarrow> length r + length p = length s"
  by (induction p s rule: stripPrefixCI.induct) (auto split: if_splits)

lemma matchCreateTableAt_shorter:
  assumes "matchCreateTableAt s = Some r"
  shows "length r < length s"
proof -
  from assms obtain r1 where r1: "stripPrefixCI ''CREATE'' s = Some r1"
    and r: "stripPrefixCI ''TABLE'' (dropWhile isSpace r1) = Some r"
    by (auto simp: matchCreateTableAt_def split: option.splits if_splits)
  have "length (dropWhile isSpace r1) \<le> length r1"
    by (rule length_dropWhile_le)
  with stripPrefixCI_length [OF r1] stripPrefixCI_length [OF r] show ?thesis
    by simp
qed

function splitCreateTable :: "string \<Rightarrow> string \<Rightarrow> string list" where
  "splitCreateTable cur [] = [cur]"
| "splitCreateTable cur (c # cs) =
     (case matchCreateTableAt (c # cs) of
        Some rest \<Rightarrow> cur # splitCreateTable [] rest
      | None \<Rightarrow> splitCreateTable (cur @ [c]) cs)"
  by pat_completeness auto
termination
  by (relation "measure (\<lambda>(cur, s). length s)")
     (auto dest: matchCreateTableAt_shorter)

section \<open>The schema and the parser\<close>

record ColumnDefinition =
  cname :: string
  ctype :: string
  ccomment :: string
  isPrimaryKey :: bool
  isNullable :: bool

record TableDefinition =
  tid :: string
  tname :: string
  tcomment :: string
  columns :: "ColumnDefinition list"

text \<open>
  The parser raises nothing itself. What could raise is the use of a group of a match
  result as a string: reading an index that the array does not have gives
  \<^verbatim>\<open>undefined\<close>, and a method call on it is a \<^verbatim>\<open>TypeError\<close>. Every such read is
  a \<open>groupAt\<close>, and the parser's result is a sum.
\<close>

datatype jsError = TypeError

definition groupAt :: "string list \<Rightarrow> nat \<Rightarrow> jsError + string" where
  "groupAt m i = (if i < length m then Inr (m ! i) else Inl TypeError)"

definition bindE :: "jsError + 'a \<Rightarrow> ('a \<Rightarrow> jsError + 'b) \<Rightarrow> jsError + 'b" where
  "bindE r f = (case r of Inl e \<Rightarrow> Inl e | Inr v \<Rightarrow> f v)"

text \<open>The loop that finds the closing parenthesis of the table body: \<open>k\<close> is the index of
  the head of the text still to read, and the result is \<^verbatim>\<open>lastParenIndex\<close>.\<close>

fun findClosingParen :: "string \<Rightarrow> nat \<Rightarrow> int \<Rightarrow> int" where
  "findClosingParen [] k parenCount = - 1"
| "findClosingParen (c # cs) k parenCount =
     (let parenCount' = (if c = CHR ''('' then parenCount + 1
                         else if c = CHR '')'' then parenCount - 1
                         else parenCount)
      in if parenCount' = 0 then int k else findClosingParen cs (k + 1) parenCount')"

text \<open>Step 2 of \<^verbatim>\<open>parseSQL\<close>: \<^verbatim>\<open>body\<close> and \<^verbatim>\<open>afterBody\<close> of a block, or \<open>None\<close> where the
  loop goes on to the next block.\<close>

definition extractBody :: "string \<Rightarrow> (string \<times> string) option" where
  "extractBody block =
     (let firstParenIndex = indexOf block CHR ''(''
      in if firstParenIndex = - 1 then None
         else let start = nat (firstParenIndex + 1);
                  lastParenIndex = findClosingParen (drop start block) start 1
              in if lastParenIndex = - 1 then None
                 else Some (substring block start (nat lastParenIndex),
                            substringFrom block (nat (lastParenIndex + 1))))"

text \<open>The pre-scan for \<^verbatim>\<open>PRIMARY KEY (...)\<close>: the set \<^verbatim>\<open>primaryKeys\<close>.\<close>

definition stripQuotes :: "string \<Rightarrow> string" where
  "stripQuotes s = removeAll_char (CHR 0x27) (removeAll_char CHR ''`'' (trim s))"

definition primaryKeysOf :: "string \<Rightarrow> jsError + string set" where
  "primaryKeysOf body =
     (case searchRe matchPrimaryKeyAt body of
        None \<Rightarrow> Inr {}
      | Some pkLineMatch \<Rightarrow>
          bindE (groupAt pkLineMatch 1) (\<lambda>g.
            let pkCols = map stripQuotes (splitOn CHR '','' [] g)
            in Inr (foldl (\<lambda>primaryKeys c. insert c primaryKeys) {} pkCols)))"

text \<open>The lines that the column loop skips before it looks for a name.\<close>

definition skippedLine :: "string \<Rightarrow> bool" where
  "skippedLine line =
     (line = [] \<or>
      startsWith line ''PRIMARY KEY'' \<or>
      startsWith line ''KEY'' \<or>
      startsWith line ''INDEX'' \<or>
      startsWith line ''UNIQUE'' \<or>
      startsWith line ''CONSTRAINT'' \<or>
      startsWith line ''FOREIGN KEY'' \<or>
      startsWith line ''--'' \<or>
      startsWith line ''/*'' \<or>
      startsWith line ''PARTITION'')"

definition keywordNames :: "string list" where
  "keywordNames =
     [''KEY'', ''PRIMARY'', ''INDEX'', ''UNIQUE'', ''CONSTRAINT'', ''FOREIGN'', ''CHECK'']"

text \<open>The body of the \<^verbatim>\<open>forEach\<close> over the lines: the column it pushes, or \<open>None\<close> when
  it returns early.\<close>

definition parseLine :: "string set \<Rightarrow> string \<Rightarrow> jsError + ColumnDefinition option" where
  "parseLine primaryKeys rawLine =
     (let line = trim rawLine
      in if skippedLine line then Inr None
         else (case matchColumnName line of
                 None \<Rightarrow> Inr None
               | Some colNameMatch \<Rightarrow>
                   bindE (groupAt colNameMatch 1) (\<lambda>colName.
                     if toUpperCase colName \<in> set keywordNames then Inr None
                     else
                       bindE (groupAt colNameMatch 0) (\<lambda>whole.
                       let remaining = trim (substringFrom line (length whole)) in
                       bindE (case matchType remaining of
                                None \<Rightarrow> Inr ''unknown''
                              | Some typeMatch \<Rightarrow> groupAt typeMatch 1) (\<lambda>colType.
                       bindE (case searchRe matchColumnCommentAt line of
                                None \<Rightarrow> Inr []
                              | Some colCommentMatch \<Rightarrow> groupAt colCommentMatch 1) (\<lambda>colComment.
                       let isNotNull = testNotNull line in
                       Inr (Some \<lparr> cname = colName,
                                   ctype = colType,
                                   ccomment = colComment,
                                   isPrimaryKey = (colName \<in> primaryKeys),
                                   isNullable = (\<not> isNotNull) \<rparr>)))))))"

fun parseLines ::
  "string set \<Rightarrow> string list \<Rightarrow> ColumnDefinition list \<Rightarrow> jsError + ColumnDefinition list" where
  "parseLines primaryKeys [] cols = Inr cols"
| "parseLines primaryKeys (line # rawLines) cols =
     (case parseLine primaryKeys line of
        Inl e \<Rightarrow> Inl e
      | Inr None \<Rightarrow> parseLines primaryKeys rawLines cols
      | Inr (Some c) \<Rightarrow> parseLines primaryKeys rawLines (cols @ [c]))"

text \<open>The body of the loop over the blocks: the table it pushes, or \<open>None\<close> when it
  continues with the next block.\<close>

definition parseBlock :: "string \<Rightarrow> jsError + TableDefinition option" where
  "parseBlock block =
     (case matchTableName block of
        None \<Rightarrow> Inr None
      | Some nameMatch \<Rightarrow>
          bindE (groupAt nameMatch 1) (\<lambda>tableName.
            case extractBody block of
              None \<Rightarrow> Inr None
            | Some (body, afterBody) \<Rightarrow>
                bindE (case searchRe matchTableCommentAt afterBody of
                         None \<Rightarrow> Inr []
                       | Some tableCommentMatch \<Rightarrow> groupAt tableCommentMatch 1) (\<lambda>tableComment.
                bindE (primaryKeysOf body) (\<lambda>primaryKeys.
                bindE (parseLines primaryKeys (splitOn CHR 0x0A [] body) []) (\<lambda>cols.
                Inr (Some \<lparr> tid = tableName,
                            tname = tableName,
                            tcomment = tableComment,
                            columns = cols \<rparr>))))))"

fun parseBlocks :: "string list \<Rightarrow> TableDefinition list \<Rightarrow> jsError + TableDefinition list" where
  "parseBlocks [] tables = Inr tables"
| "parseBlocks (block # tableBlocks) tables =
     (case parseBlock block of
        Inl e \<Rightarrow> Inl e
      | Inr None \<Rightarrow> parseBlocks tableBlocks tables
      | Inr (Some t) \<Rightarrow> parseBlocks tableBlocks (tables @ [t]))"

text \<open>The loop starts at index 1: the text before the first \<^verbatim>\<open>CREATE TABLE\<close> is not a
  block.\<close>

definition parseSQL :: "string \<Rightarrow> jsError + TableDefinition list" where
  "parseSQL sql = parseBlocks (tl (splitCreateTable [] sql)) []"

section \<open>The caller of the parser\<close>

datatype ViewMode = EDITOR | SQL_INPUT

text \<open>The state of the \<^verbatim>\<open>App\<close> component; \<open>error\<close> is \<open>None\<close> for \<^verbatim>\<open>null\<close>.\<close>

record AppState =
  sqlInput :: string
  parsedTables :: "TableDefinition list"
  viewMode :: ViewMode
  error :: "string option"

text \<open>\<^verbatim>\<open>handleParse\<close>, with the function called inside its \<^verbatim>\<open>try\<close> as a parameter: an
  \<open>Inl\<close> is an exception, which the \<^verbatim>\<open>catch\<close> turns into a message.\<close>

definition handleParseWith ::
  "(string \<Rightarrow> jsError + TableDefinition list) \<Rightarrow> AppState \<Rightarrow> AppState" where
  "handleParseWith parser st =
     (case parser (sqlInput st) of
        Inr tables \<Rightarrow>
          if length tables = 0
          then st\<lparr>error := Some ''No tables found in the provided SQL.''\<rparr>
          else st\<lparr>parsedTables := tables, error := None, viewMode := EDITOR\<rparr>
      | Inl e \<Rightarrow> st\<lparr>error := Some ''Failed to parse SQL. Please check the syntax.''\<rparr>)"

definition handleParse :: "AppState \<Rightarrow> AppState" where
  "handleParse st = handleParseWith parseSQL st"

text \<open>The other caller of the parser, the timer callback of \<^verbatim>\<open>handleFileUpload\<close>,
  after the input has been set to the content of the file: it stores what the parser
  returns, without a test for the empty result and without a \<^verbatim>\<open>try\<close>.\<close>

definition uploadParsedWith ::
  "(string \<Rightarrow> jsError + TableDefinition list) \<Rightarrow> string \<Rightarrow> AppState \<Rightarrow> AppState" where
  "uploadParsedWith parser content st =
     (case parser content of
        Inr tables \<Rightarrow> st\<lparr>sqlInput := content, parsedTables := tables\<rparr>
      | Inl e \<Rightarrow> st\<lparr>sqlInput := content\<rparr>)"

definition uploadParsed :: "string \<Rightarrow> AppState \<Rightarrow> AppState" where
  "uploadParsed content st = uploadParsedWith parseSQL content st"

section \<open>The relationship edges of the diagram\<close>

definition IGNORED_FK_COLUMNS :: "string set" where
  "IGNORED_FK_COLUMNS =
     {''COMPANY'', ''TRAN_TIMESTAMP'', ''USER_ID'', ''CREATE_USER_ID'', ''LAST_CHANGE_USER_ID'',
      ''APPR_USER_ID'', ''AUTH_USER_ID'', ''CREATE_DATE'', ''UPDATE_DATE'', ''LAST_CHANGE_DATE'',
      ''TRAN_DATE'', ''RUN_DATE'', ''JOB_RUN_ID'', ''BATCH_NO'', ''REMARK'', ''REMARK1'',
      ''REMARK2'', ''REMARK3'', ''ERROR_CODE'', ''ERROR_DESC''}"

text \<open>
  An edge of the diagram, with the fields that the component reads or writes:
  \<open>stroke\<close>, \<open>strokeWidth\<close> and \<open>opacity\<close> are those of \<^verbatim>\<open>style\<close>, \<open>markerColor\<close> is
  \<^verbatim>\<open>markerEnd.color\<close>; \<open>None\<close> is a field that is not set. The two constant fields
  (\<^verbatim>\<open>type\<close> and \<^verbatim>\<open>markerEnd.type\<close>) are left out. \<open>animated\<close> is the truth value of what
  the component stores there.
\<close>

record Edge =
  eid :: string
  source :: string
  target :: string
  sourceHandle :: string
  targetHandle :: string
  animated :: bool
  stroke :: string
  strokeWidth :: nat
  opacity :: "rat option"
  markerColor :: string
  zIndex :: "nat option"

text \<open>The first loop over the tables: a column's step on \<^verbatim>\<open>pkMap\<close>.\<close>

definition registerKey ::
  "TableDefinition \<Rightarrow> (string \<rightharpoonup> string) \<Rightarrow> ColumnDefinition \<Rightarrow> (string \<rightharpoonup> string)" where
  "registerKey t pkMap c =
     (if isPrimaryKey c \<and> cname c \<notin> IGNORED_FK_COLUMNS
      then (if toUpperCase (cname c) \<noteq> ''ID''
            then (if cname c = ''CLIENT_NO'' \<and> tname t = ''cif_client''
                  then pkMap(cname c \<mapsto> tid t)
                  else if pkMap (cname c) = None
                       then pkMap(cname c \<mapsto> tid t)
                       else pkMap)
            else pkMap)
      else pkMap)"

definition buildPkMap :: "TableDefinition list \<Rightarrow> (string \<rightharpoonup> string)" where
  "buildPkMap tables = foldl (\<lambda>pkMap t. foldl (registerKey t) pkMap (columns t)) Map.empty tables"

text \<open>The edge that the second loop pushes for column \<open>c\<close> of table \<open>t\<close>.\<close>

definition newEdge :: "TableDefinition \<Rightarrow> ColumnDefinition \<Rightarrow> string \<Rightarrow> Edge" where
  "newEdge t c targetTableId =
     \<lparr> eid = ''e-'' @ tid t @ ''-'' @ cname c @ ''-'' @ targetTableId,
       source = tid t,
       target = targetTableId,
       sourceHandle = cname c @ ''-source'',
       targetHandle = cname c @ ''-target'',
       animated = False,
       stroke = ''#cbd5e1'',
       strokeWidth = 1,
       opacity = None,
       markerColor = ''#94a3b8'',
       zIndex = None \<rparr>"

text \<open>The second loop over the tables: a column's step on \<^verbatim>\<open>newEdges\<close>. The test
  \<^verbatim>\<open>targetTableId && ...\<close> fails for the empty string.\<close>

definition pushEdge ::
  "(string \<rightharpoonup> string) \<Rightarrow> TableDefinition \<Rightarrow> Edge list \<Rightarrow> ColumnDefinition \<Rightarrow> Edge list" where
  "pushEdge pkMap t newEdges c =
     (if cname c \<in> IGNORED_FK_COLUMNS then newEdges
      else (case pkMap (cname c) of
              None \<Rightarrow> newEdges
            | Some targetTableId \<Rightarrow>
                if targetTableId \<noteq> [] \<and> targetTableId \<noteq> tid t
                then newEdges @ [newEdge t c targetTableId]
                else newEdges))"

definition inferEdges :: "TableDefinition list \<Rightarrow> Edge list" where
  "inferEdges tables =
     (let pkMap = buildPkMap tables
      in foldl (\<lambda>newEdges t. foldl (pushEdge pkMap t) newEdges (columns t)) [] tables)"

section \<open>Selection and highlighting\<close>

text \<open>A node of the diagram: its id and its \<^verbatim>\<open>data\<close>. The position, which no decision
  reads, is left out. \<open>selected\<close> and \<open>dimmed\<close> are not set on a new node.\<close>

record Node =
  nid :: string
  label :: string
  ncomment :: string
  ncolumns :: "ColumnDefinition list"
  selected :: "bool option"
  dimmed :: "bool option"

definition getLayoutedNodes :: "TableDefinition list \<Rightarrow> Node list" where
  "getLayoutedNodes tables =
     map (\<lambda>table. \<lparr> nid = tid table, label = tname table, ncomment = tcomment table,
                     ncolumns = columns table, selected = None, dimmed = None \<rparr>) tables"

text \<open>The state of the diagram component; \<open>None\<close> is \<^verbatim>\<open>null\<close>.\<close>

record Diagram =
  nodes :: "Node list"
  edges :: "Edge list"
  selectedNodeId :: "string option"

text \<open>The adjacency index: one step of the loop over the edges.\<close>

definition addNeighbours :: "(string \<rightharpoonup> string set) \<Rightarrow> Edge \<Rightarrow> (string \<rightharpoonup> string set)" where
  "addNeighbours m e =
     (let m1 = (if m (source e) = None then m(source e \<mapsto> {}) else m);
          m2 = (if m1 (target e) = None then m1(target e \<mapsto> {}) else m1);
          m3 = (case m2 (source e) of
                  None \<Rightarrow> m2
                | Some s \<Rightarrow> m2(source e \<mapsto> insert (target e) s))
      in (case m3 (target e) of
            None \<Rightarrow> m3
          | Some s \<Rightarrow> m3(target e \<mapsto> insert (source e) s)))"

definition adjacency :: "Edge list \<Rightarrow> (string \<rightharpoonup> string set)" where
  "adjacency es = foldl addNeighbours Map.empty es"

text \<open>A string or \<^verbatim>\<open>null\<close> used as a condition: \<^verbatim>\<open>null\<close> and the empty string count as
  false.\<close>

definition truthy :: "string option \<Rightarrow> bool" where
  "truthy s = (case s of None \<Rightarrow> False | Some v \<Rightarrow> v \<noteq> [])"

text \<open>The update of a node and of an edge in the effect that follows a change of the
  selection or of the adjacency index. \<open>isNeighbor\<close> is the truth value of
  \<^verbatim>\<open>adjacency.get(selectedNodeId)?.has(node.id)\<close>, false when the index has no entry.\<close>

definition styleNode :: "string option \<Rightarrow> (string \<rightharpoonup> string set) \<Rightarrow> Node \<Rightarrow> Node" where
  "styleNode selId adj node =
     (let isSelected = (Some (nid node) = selId);
          isNeighbor = (if truthy selId
                        then (case adj (the selId) of None \<Rightarrow> False | Some s \<Rightarrow> nid node \<in> s)
                        else False);
          shouldDim = (selId \<noteq> None \<and> \<not> isSelected \<and> \<not> isNeighbor)
      in if selected node = Some isSelected \<and> dimmed node = Some shouldDim then node
         else node\<lparr>selected := Some isSelected, dimmed := Some shouldDim\<rparr>)"

definition styleEdge :: "string option \<Rightarrow> Edge \<Rightarrow> Edge" where
  "styleEdge selId edge =
     (let isConnected = (truthy selId \<and> (Some (source edge) = selId \<or> Some (target edge) = selId));
          shouldDim = (selId \<noteq> None \<and> \<not> isConnected);
          targetStroke = (if isConnected then ''#3b82f6'' else ''#cbd5e1'');
          targetWidth = (if isConnected then 3 else 1);
          targetOpacity = (if shouldDim then 1 / 5 else 1);
          targetColor = (if isConnected then ''#3b82f6''
                         else if shouldDim then ''#e2e8f0'' else ''#94a3b8'');
          targetZIndex = (if isConnected then 10 else 0)
      in if animated edge = isConnected \<and> stroke edge = targetStroke \<and>
            strokeWidth edge = targetWidth \<and> opacity edge = Some targetOpacity \<and>
            markerColor edge = targetColor \<and> zIndex edge = Some targetZIndex
         then edge
         else edge\<lparr>animated := isConnected, stroke := targetStroke, strokeWidth := targetWidth,
                   opacity := Some targetOpacity, markerColor := targetColor,
                   zIndex := Some targetZIndex\<rparr>)"

text \<open>The first effect (new tables) and the second (new selection or adjacency).\<close>

definition initDiagram :: "TableDefinition list \<Rightarrow> Diagram" where
  "initDiagram tables =
     \<lparr> nodes = getLayoutedNodes tables, edges = inferEdges tables, selectedNodeId = None \<rparr>"

definition restyle :: "Diagram \<Rightarrow> Diagram" where
  "restyle d =
     d\<lparr>nodes := map (styleNode (selectedNodeId d) (adjacency (edges d))) (nodes d),
       edges := map (styleEdge (selectedNodeId d)) (edges d)\<rparr>"

text \<open>
  The selection machine. A click on a node of the diagram selects it, a click on the
  pane clears the selection, and the second effect runs after each. The machine starts
  from the mounted component: the first effect followed by the second.
\<close>

datatype Event = NodeClick string | PaneClick

fun step :: "Diagram \<Rightarrow> Event \<Rightarrow> Diagram option" where
  "step d (NodeClick i) =
     (if i \<in> set (map nid (nodes d)) then Some (restyle (d\<lparr>selectedNodeId := Some i\<rparr>))
      else None)"
| "step d PaneClick = Some (restyle (d\<lparr>selectedNodeId := None\<rparr>))"

fun run :: "Diagram \<Rightarrow> Event list \<Rightarrow> Diagram option" where
  "run d [] = Some d"
| "run d (e # es) = (case step d e of None \<Rightarrow> None | Some d' \<Rightarrow> run d' es)"

definition mount :: "TableDefinition list \<Rightarrow> Diagram" where
  "mount tables = restyle (initDiagram tables)"

section \<open>Notions of the specification\<close>

text \<open>The nesting counter of the body scan after reading \<open>s\<close>, relative to its value
  before: opening minus closing parentheses.\<close>

definition parenDepth :: "string \<Rightarrow> int" where
  "parenDepth s =
     int (length (List.filter (\<lambda>c. c = CHR ''('') s)) - int (length (List.filter (\<lambda>c. c = CHR '')'') s))"

text \<open>The text of a block after its first opening parenthesis.\<close>

definition afterFirstParen :: "string \<Rightarrow> string" where
  "afterFirstParen block = tl (dropWhile (\<lambda>c. c \<noteq> CHR ''('') block)"

text \<open>The parentheses of a block never balance: the counter, 1 after the first opening
  parenthesis, is 0 after no prefix of the text that follows.\<close>

definition neverBalances :: "string \<Rightarrow> bool" where
  "neverBalances block =
     (\<forall>n \<in> set [0 ..< Suc (length (afterFirstParen block))].
        1 + parenDepth (take n (afterFirstParen block)) \<noteq> 0)"

text \<open>A block that the specification drops: no leading identifier, no opening
  parenthesis, or parentheses that never balance.\<close>

definition malformed :: "string \<Rightarrow> bool" where
  "malformed block =
     (matchTableName block = None \<or> CHR ''('' \<notin> set block \<or> neverBalances block)"

text \<open>The table that a block yields and the column that a line yields, if any.\<close>

definition tableOf :: "string \<Rightarrow> TableDefinition option" where
  "tableOf block = (case parseBlock block of Inr (Some t) \<Rightarrow> Some t | _ \<Rightarrow> None)"

definition columnOf :: "string set \<Rightarrow> string \<Rightarrow> ColumnDefinition option" where
  "columnOf pk line = (case parseLine pk line of Inr (Some c) \<Rightarrow> Some c | _ \<Rightarrow> None)"

text \<open>The tokens of the first \<^verbatim>\<open>PRIMARY KEY (...)\<close> match of a body: its list split at
  the commas, each piece trimmed and stripped of backticks and quotes.\<close>

definition pkTokens :: "string \<Rightarrow> string list" where
  "pkTokens body =
     (case searchRe matchPrimaryKeyAt body of
        None \<Rightarrow> []
      | Some m \<Rightarrow> map stripQuotes (splitOn CHR '','' [] (m ! 1)))"

text \<open>The text \<open>s\<close> begins with a primary key clause whose list is \<open>cols\<close>: the words
  \<^verbatim>\<open>PRIMARY KEY\<close> in any letter case, white space, and the list in parentheses, which is
  not empty and runs to the first closing parenthesis.\<close>

definition pkClauseAt :: "string \<Rightarrow> string \<Rightarrow> bool" where
  "pkClauseAt s cols =
     (\<exists>kw ws post. s = kw @ ws @ ''('' @ cols @ '')'' @ post \<and>
        toUpperCase kw = ''PRIMARY KEY'' \<and> (\<forall>c \<in> set ws. isSpace c) \<and>
        cols \<noteq> [] \<and> CHR '')'' \<notin> set cols)"

text \<open>A column that can register its name in the key-provider mapping, a table that
  has such a column named \<open>n\<close>, and the client master table for the name
  \<^verbatim>\<open>CLIENT_NO\<close>.\<close>

definition qualifies :: "ColumnDefinition \<Rightarrow> bool" where
  "qualifies c =
     (isPrimaryKey c \<and> cname c \<notin> IGNORED_FK_COLUMNS \<and> toUpperCase (cname c) \<noteq> ''ID'')"

definition provides :: "string \<Rightarrow> TableDefinition \<Rightarrow> bool" where
  "provides n t = (\<exists>c \<in> set (columns t). qualifies c \<and> cname c = n)"

definition clientMaster :: "string \<Rightarrow> TableDefinition \<Rightarrow> bool" where
  "clientMaster n t = (n = ''CLIENT_NO'' \<and> tname t = ''cif_client'' \<and> provides n t)"

text \<open>The owner of a column name as the specification resolves it: the client master
  table when there is one for the name (the last one, should several tables bear its
  name), otherwise the first table in schema order that provides the name.\<close>

definition keyOwner :: "TableDefinition list \<Rightarrow> string \<Rightarrow> string option" where
  "keyOwner tables n =
     (if \<exists>t \<in> set tables. clientMaster n t
      then Some (tid (last (List.filter (clientMaster n) tables)))
      else (case List.filter (provides n) tables of
              [] \<Rightarrow> None
            | t # _ \<Rightarrow> Some (tid t)))"

text \<open>The edge of a (table, column) pair under a mapping \<open>owner\<close>: one edge to the
  owning table when the column is not excluded, its name is a key of the mapping and the
  owner is another table, and none otherwise.\<close>

definition edgesOf ::
  "(string \<rightharpoonup> string) \<Rightarrow> TableDefinition \<Rightarrow> ColumnDefinition \<Rightarrow> Edge list" where
  "edgesOf owner t c =
     (case owner (cname c) of
        None \<Rightarrow> []
      | Some i \<Rightarrow> if cname c \<notin> IGNORED_FK_COLUMNS \<and> i \<noteq> tid t then [newEdge t c i] else [])"

definition expectedEdges :: "TableDefinition list \<Rightarrow> Edge list" where
  "expectedEdges tables =
     concat (map (\<lambda>t. concat (map (edgesOf (keyOwner tables) t) (columns t))) tables)"

text \<open>The entry of the adjacency index for \<open>s\<close>, empty when there is none; the dimmed
  tables and the emphasised and dimmed edges of the specification. A dimmed edge is drawn
  with opacity 0.2.\<close>

definition neighbours :: "Edge list \<Rightarrow> string \<Rightarrow> string set" where
  "neighbours es s = (case adjacency es s of None \<Rightarrow> {} | Some ns \<Rightarrow> ns)"

text \<open>The tables joined to \<open>s\<close> by at least one edge, in either direction.\<close>

definition linkedTo :: "Edge list \<Rightarrow> string \<Rightarrow> string set" where
  "linkedTo es s =
     {i. \<exists>e \<in> set es. (source e = s \<and> target e = i) \<or> (target e = s \<and> source e = i)}"

definition nodeDimmed :: "Diagram \<Rightarrow> Node \<Rightarrow> bool" where
  "nodeDimmed d n =
     (case selectedNodeId d of
        None \<Rightarrow> False
      | Some s \<Rightarrow> nid n \<noteq> s \<and> nid n \<notin> neighbours (edges d) s)"

definition edgeEmphasized :: "Diagram \<Rightarrow> Edge \<Rightarrow> bool" where
  "edgeEmphasized d e =
     (case selectedNodeId d of
        None \<Rightarrow> False
      | Some s \<Rightarrow> source e = s \<or> target e = s)"

definition edgeDimmed :: "Edge \<Rightarrow> bool" where
  "edgeDimmed e = (opacity e = Some (1 / 5))"

text \<open>A diagram whose flags agree with its selection, and the invariant of the
  selection machine.\<close>

definition styled :: "Diagram \<Rightarrow> bool" where
  "styled d =
     ((\<forall>n \<in> set (nodes d). selected n = Some (selectedNodeId d = Some (nid n)) \<and>
                             dimmed n = Some (nodeDimmed d n)) \<and>
      (\<forall>e \<in> set (edges d). animated e = edgeEmphasized d e \<and>
          opacity e = Some (if selectedNodeId d \<noteq> None \<and> \<not> edgeEmphasized d e
                            then 1 / 5 else 1)))"

definition wellSelected :: "Diagram \<Rightarrow> bool" where
  "wellSelected d = ((\<forall>i \<in> set (map nid (nodes d)). i \<noteq> []) \<and> styled d)"

section \<open>The parser returns on every input\<close>

lemma groupAt_pair [simp]:
  "groupAt [a, b] 0 = Inr a" "groupAt [a, b] (Suc 0) = Inr b" "groupAt [a, b] 1 = Inr b"
  by (simp_all add: groupAt_def)

lemma bindE_Inr [simp]: "bindE (Inr v) f = f v"
  by (simp add: bindE_def)

lemma bindE_Inl [simp]: "bindE (Inl e) f = Inl e"
  by (simp add: bindE_def)

lemma searchRe_Some: "searchRe m s = Some r \<Longrightarrow> \<exists>s'. m s' = Some r"
  by (induction s) (auto split: option.splits)

text \<open>Every match result has the whole match and one group.\<close>

lemma matchColumnName_pair: "matchColumnName l = Some m \<Longrightarrow> \<exists>a b. m = [a, b]"
  by (auto simp: matchColumnName_def Let_def split: prod.splits if_splits)

lemma matchTableName_pair: "matchTableName l = Some m \<Longrightarrow> \<exists>a b. m = [a, b]"
  by (auto simp: matchTableName_def Let_def split: prod.splits if_splits)

lemma matchType_pair: "matchType l = Some m \<Longrightarrow> \<exists>a b. m = [a, b]"
  by (auto simp: matchType_def Let_def split: prod.splits if_splits list.splits option.splits)

lemma matchPrimaryKeyAt_pair: "matchPrimaryKeyAt l = Some m \<Longrightarrow> \<exists>a b. m = [a, b]"
  by (auto simp: matchPrimaryKeyAt_def split: prod.splits if_splits list.splits option.splits)

lemma matchTableCommentAt_pair: "matchTableCommentAt l = Some m \<Longrightarrow> \<exists>a b. m = [a, b]"
  by (auto simp: matchTableCommentAt_def split: prod.splits if_splits list.splits option.splits)

lemma matchColumnCommentAt_pair: "matchColumnCommentAt l = Some m \<Longrightarrow> \<exists>a b. m = [a, b]"
  by (auto simp: matchColumnCommentAt_def split: prod.splits if_splits list.splits option.splits)

lemma parseLine_total: "\<exists>r. parseLine pk l = Inr r"
  by (auto simp: parseLine_def Let_def split: option.splits
      dest!: matchColumnName_pair matchType_pair searchRe_Some matchColumnCommentAt_pair)

lemma parseLines_total: "\<exists>r. parseLines pk ls cols = Inr r"
proof (induction ls arbitrary: cols)
  case Nil
  show ?case by simp
next
  case (Cons l ls)
  obtain r where "parseLine pk l = Inr r" using parseLine_total by blast
  with Cons show ?case by (cases r) auto
qed

lemma primaryKeysOf_total: "\<exists>r. primaryKeysOf body = Inr r"
  by (auto simp: primaryKeysOf_def Let_def split: option.splits
      dest!: searchRe_Some matchPrimaryKeyAt_pair)

lemma tableComment_total:
  "\<exists>r. (case searchRe matchTableCommentAt s of None \<Rightarrow> Inr [] | Some m \<Rightarrow> groupAt m 1) = Inr r"
  by (auto split: option.splits dest!: searchRe_Some matchTableCommentAt_pair)

lemma parseBlock_total: "\<exists>r. parseBlock b = Inr r"
proof (cases "matchTableName b")
  case None
  then show ?thesis by (simp add: parseBlock_def)
next
  case (Some m)
  then obtain w n where m: "m = [w, n]" using matchTableName_pair by blast
  show ?thesis
  proof (cases "extractBody b")
    case None
    with \<open>matchTableName b = Some m\<close> m show ?thesis by (simp add: parseBlock_def)
  next
    case (Some p)
    obtain body after where p: "p = (body, after)" by (cases p)
    obtain tc where tc:
      "(case searchRe matchTableCommentAt after of None \<Rightarrow> Inr [] | Some m \<Rightarrow> groupAt m 1) = Inr tc"
      using tableComment_total by blast
    obtain pk where pk: "primaryKeysOf body = Inr pk" using primaryKeysOf_total by blast
    obtain cs where cs: "parseLines pk (splitOn CHR 0x0A [] body) [] = Inr cs"
      using parseLines_total by blast
    from \<open>matchTableName b = Some m\<close> m Some p tc pk cs show ?thesis
      by (simp add: parseBlock_def)
  qed
qed

lemma parseBlocks_total: "\<exists>r. parseBlocks bs acc = Inr r"
proof (induction bs arbitrary: acc)
  case Nil
  show ?case by simp
next
  case (Cons b bs)
  obtain r where "parseBlock b = Inr r" using parseBlock_total by blast
  with Cons show ?case by (cases r) auto
qed

lemma parseSQL_total: "\<exists>ts. parseSQL sql = Inr ts"
  by (simp add: parseSQL_def parseBlocks_total)

text \<open>
  C9. For every input string \<^verbatim>\<open>parseSQL\<close> returns an array of tables (possibly empty):
  the recursion of every loop of the model is well-founded, no read of a match group
  fails, and so \<^verbatim>\<open>handleParse\<close> never ends in its \<^verbatim>\<open>catch\<close> branch: it shows the
  no-tables message or stores the tables.
\<close>

theorem C9_parseSQL_returns:
  "(\<exists>ts. parseSQL sql = Inr ts) \<and>
   (\<exists>ts. parseSQL (sqlInput st) = Inr ts \<and>
     handleParse st =
       (if ts = [] then st\<lparr>error := Some ''No tables found in the provided SQL.''\<rparr>
        else st\<lparr>parsedTables := ts, error := None, viewMode := EDITOR\<rparr>)) \<and>
   error (handleParse st) \<noteq> Some ''Failed to parse SQL. Please check the syntax.''"
proof -
  obtain ts where ts: "parseSQL (sqlInput st) = Inr ts" using parseSQL_total by blast
  have h: "handleParse st =
       (if ts = [] then st\<lparr>error := Some ''No tables found in the provided SQL.''\<rparr>
        else st\<lparr>parsedTables := ts, error := None, viewMode := EDITOR\<rparr>)"
    by (simp add: handleParse_def handleParseWith_def ts)
  have "error (handleParse st) \<noteq> Some ''Failed to parse SQL. Please check the syntax.''"
    by (simp add: h)
  with ts h parseSQL_total show ?thesis by blast
qed

section \<open>The body scan, the lines and the blocks\<close>

lemma parenDepth_Cons:
  "parenDepth (c # cs) = (if c = CHR ''('' then 1 else if c = CHR '')'' then - 1 else 0) + parenDepth cs"
  by (simp add: parenDepth_def)

lemma parenDepth_Nil [simp]: "parenDepth [] = 0"
  by (simp add: parenDepth_def)

lemma parenDepth_append: "parenDepth (a @ b) = parenDepth a + parenDepth b"
  by (simp add: parenDepth_def)

lemma findClosingParen_none:
  "0 < pc \<Longrightarrow> (findClosingParen s k pc = - 1) = (\<forall>n \<le> length s. pc + parenDepth (take n s) \<noteq> 0)"
proof (induction s arbitrary: k pc)
  case Nil
  then show ?case by simp
next
  case (Cons c cs)
  let ?pc' = "pc + (if c = CHR ''('' then 1 else if c = CHR '')'' then - 1 else 0)"
  show ?case
  proof (cases "?pc' = 0")
    case True
    have "pc + parenDepth (take (Suc 0) (c # cs)) = 0"
      using True by (simp add: parenDepth_Cons)
    then have "\<not> (\<forall>n \<le> length (c # cs). pc + parenDepth (take n (c # cs)) \<noteq> 0)"
      by (metis Suc_leI length_Cons zero_less_Suc)
    moreover have "findClosingParen (c # cs) k pc = int k"
      using True by (auto simp: Let_def)
    ultimately show ?thesis by simp
  next
    case False
    with Cons.prems have pos: "0 < ?pc'" by (auto split: if_splits)
    have f: "findClosingParen (c # cs) k pc = findClosingParen cs (k + 1) ?pc'"
      using False by (auto simp: Let_def)
    have "(\<forall>n \<le> length (c # cs). pc + parenDepth (take n (c # cs)) \<noteq> 0)
        = (\<forall>n \<le> length cs. ?pc' + parenDepth (take n cs) \<noteq> 0)" (is "?L = ?R")
    proof
      assume l: ?L
      show ?R
      proof (intro allI impI)
        fix n assume "n \<le> length cs"
        then have "pc + parenDepth (take (Suc n) (c # cs)) \<noteq> 0" using l by (metis Suc_le_mono length_Cons)
        then show "?pc' + parenDepth (take n cs) \<noteq> 0" by (simp add: parenDepth_Cons)
      qed
    next
      assume r: ?R
      show ?L
      proof (intro allI impI)
        fix n assume n: "n \<le> length (c # cs)"
        show "pc + parenDepth (take n (c # cs)) \<noteq> 0"
        proof (cases n)
          case 0
          then show ?thesis using Cons.prems by simp
        next
          case (Suc m)
          with n have "m \<le> length cs" by simp
          with r have "?pc' + parenDepth (take m cs) \<noteq> 0" by blast
          then show ?thesis using Suc by (simp add: parenDepth_Cons)
        qed
      qed
    qed
    with Cons.IH [OF pos, of "k + 1"] f show ?thesis by simp
  qed
qed

lemma findClosingParen_split:
  "0 < pc \<Longrightarrow> findClosingParen s k pc = int j \<Longrightarrow>
   \<exists>body after. s = body @ CHR '')'' # after \<and> j = k + length body \<and>
     pc + parenDepth body = 1 \<and> (\<forall>n \<le> length body. 0 < pc + parenDepth (take n body))"
proof (induction s arbitrary: k pc)
  case Nil
  then show ?case by simp
next
  case (Cons c cs)
  let ?pc' = "pc + (if c = CHR ''('' then 1 else if c = CHR '')'' then - 1 else 0)"
  show ?case
  proof (cases "?pc' = 0")
    case True
    with Cons.prems have c: "c = CHR '')''" and pc: "pc = 1" by (auto split: if_splits)
    have "findClosingParen (c # cs) k pc = int k"
      using True by (auto simp: Let_def)
    with Cons.prems have "j = k" by simp
    with c pc show ?thesis by (intro exI [of _ "[]"] exI [of _ cs]) simp
  next
    case False
    with Cons.prems have pos: "0 < ?pc'" by (auto split: if_splits)
    have f: "findClosingParen (c # cs) k pc = findClosingParen cs (k + 1) ?pc'"
      using False by (auto simp: Let_def)
    with Cons.prems have "findClosingParen cs (k + 1) ?pc' = int j" by simp
    from Cons.IH [OF pos this] obtain body after where
      cs: "cs = body @ CHR '')'' # after" and j: "j = k + 1 + length body"
      and d: "?pc' + parenDepth body = 1"
      and p: "\<forall>n \<le> length body. 0 < ?pc' + parenDepth (take n body)" by blast
    have "\<forall>n \<le> length (c # body). 0 < pc + parenDepth (take n (c # body))"
    proof (intro allI impI)
      fix n assume n: "n \<le> length (c # body)"
      show "0 < pc + parenDepth (take n (c # body))"
      proof (cases n)
        case 0
        then show ?thesis using Cons.prems by simp
      next
        case (Suc m)
        with n have "m \<le> length body" by simp
        with p have "0 < ?pc' + parenDepth (take m body)" by blast
        then show ?thesis using Suc by (simp add: parenDepth_Cons)
      qed
    qed
    moreover have "pc + parenDepth (c # body) = 1" using d by (simp add: parenDepth_Cons)
    ultimately show ?thesis using cs j
      by (intro exI [of _ "c # body"] exI [of _ after]) simp
  qed
qed

lemma findClosingParen_range: "findClosingParen s k pc = - 1 \<or> (\<exists>j. findClosingParen s k pc = int j)"
  by (induction s arbitrary: k pc) (auto simp: Let_def)

lemma block_at_first_paren:
  assumes "CHR ''('' \<in> set block"
  shows "block = takeWhile (\<lambda>c. c \<noteq> CHR ''('') block @ CHR ''('' # afterFirstParen block"
proof -
  let ?d = "dropWhile (\<lambda>c. c \<noteq> CHR ''('') block"
  from assms have ne: "?d \<noteq> []" by (simp add: dropWhile_eq_Nil_conv)
  then have "hd ?d = CHR ''(''" using hd_dropWhile [of "\<lambda>c. c \<noteq> CHR ''(''" block] by simp
  with ne have "?d = CHR ''('' # tl ?d" by (cases ?d) auto
  then show ?thesis
    by (metis afterFirstParen_def takeWhile_dropWhile_id)
qed

lemma drop_after_first_paren:
  assumes "CHR ''('' \<in> set block"
  shows "drop (Suc (length (takeWhile (\<lambda>c. c \<noteq> CHR ''('') block))) block = afterFirstParen block"
proof -
  let ?p = "takeWhile (\<lambda>c. c \<noteq> CHR ''('') block"
  have "drop (Suc (length ?p)) (?p @ CHR ''('' # afterFirstParen block) = afterFirstParen block"
    by simp
  with block_at_first_paren [OF assms] show ?thesis by simp
qed

lemma extractBody_None:
  "(extractBody block = None) = (CHR ''('' \<notin> set block \<or> neverBalances block)"
proof (cases "CHR ''('' \<in> set block")
  case False
  then show ?thesis by (simp add: extractBody_def indexOf_def)
next
  case True
  let ?start = "Suc (length (takeWhile (\<lambda>c. c \<noteq> CHR ''('') block))"
  have s: "nat (indexOf block CHR ''('' + 1) = ?start"
    using True by (simp add: indexOf_def)
  have "(extractBody block = None) = (findClosingParen (afterFirstParen block) ?start 1 = - 1)"
    using True unfolding extractBody_def Let_def s drop_after_first_paren [OF True]
    by (simp add: indexOf_def)
  also have "\<dots> = neverBalances block"
    using findClosingParen_none [of 1 "afterFirstParen block" ?start]
    by (auto simp: neverBalances_def less_Suc_eq_le)
  finally show ?thesis using True by simp
qed

lemma extractBody_Some:
  assumes "extractBody block = Some (body, after)"
  shows "\<exists>pre. block = pre @ CHR ''('' # body @ CHR '')'' # after \<and> CHR ''('' \<notin> set pre \<and>
           1 + parenDepth body = 1 \<and> (\<forall>n \<le> length body. 0 < 1 + parenDepth (take n body))"
proof -
  let ?pre = "takeWhile (\<lambda>c. c \<noteq> CHR ''('') block"
  let ?start = "Suc (length ?pre)"
  let ?rest = "afterFirstParen block"
  from assms have True: "CHR ''('' \<in> set block"
    by (auto simp: extractBody_def indexOf_def Let_def split: if_splits)
  have s: "nat (indexOf block CHR ''('' + 1) = ?start"
    using True by (simp add: indexOf_def)
  have i: "indexOf block CHR ''('' \<noteq> - 1" using True by (simp add: indexOf_def)
  from assms have ne: "findClosingParen ?rest ?start 1 \<noteq> - 1"
    unfolding extractBody_def Let_def s drop_after_first_paren [OF True] using i
    by (auto split: if_splits)
  then obtain j where j: "findClosingParen ?rest ?start 1 = int j"
    using findClosingParen_range by blast
  from findClosingParen_split [OF _ j] obtain b a where
    rest: "?rest = b @ CHR '')'' # a" and jj: "j = ?start + length b"
    and d: "1 + parenDepth b = 1" and p: "\<forall>n \<le> length b. 0 < 1 + parenDepth (take n b)"
    by auto
  have blk: "block = ?pre @ CHR ''('' # b @ CHR '')'' # a"
    using block_at_first_paren [OF True] rest by simp
  have "substring block ?start j = b"
    by (subst blk) (simp add: substring_def jj min_def max_def)
  moreover have "substringFrom block (nat (int j + 1)) = a"
  proof -
    have "nat (int j + 1) = Suc j" by simp
    moreover have "drop (Suc j) (?pre @ CHR ''('' # b @ CHR '')'' # a) = a" by (simp add: jj)
    ultimately show ?thesis using blk by (simp add: substringFrom_def)
  qed
  moreover from assms have "extractBody block = Some (substring block ?start j, substringFrom block (nat (int j + 1)))"
    unfolding extractBody_def Let_def s drop_after_first_paren [OF True] using i j
    by (simp split: if_splits)
  ultimately have "body = b" "after = a" using assms by simp_all
  moreover have "CHR ''('' \<notin> set ?pre" by (auto dest: set_takeWhileD)
  ultimately show ?thesis using blk d p by blast
qed

lemma foldl_insert: "foldl (\<lambda>S c. insert c S) A xs = A \<union> set xs"
  by (induction xs arbitrary: A) auto

lemma primaryKeysOf_tokens: "primaryKeysOf body = Inr (set (pkTokens body))"
  by (auto simp: primaryKeysOf_def pkTokens_def Let_def foldl_insert split: option.splits
      dest!: searchRe_Some matchPrimaryKeyAt_pair)

lemma parseLine_columnOf: "parseLine pk l = Inr (columnOf pk l)"
proof -
  obtain r where "parseLine pk l = Inr r" using parseLine_total by blast
  then show ?thesis by (cases r) (simp_all add: columnOf_def)
qed

lemma parseLines_map_filter:
  "parseLines pk ls cols = Inr (cols @ List.map_filter (columnOf pk) ls)"
proof (induction ls arbitrary: cols)
  case Nil
  show ?case by (simp add: List.map_filter_simps)
next
  case (Cons l ls)
  show ?case
    by (cases "columnOf pk l") (simp_all add: parseLine_columnOf Cons List.map_filter_simps)
qed

lemma parseBlock_tableOf: "parseBlock b = Inr (tableOf b)"
proof -
  obtain r where "parseBlock b = Inr r" using parseBlock_total by blast
  then show ?thesis by (cases r) (simp_all add: tableOf_def)
qed

lemma parseBlocks_map_filter:
  "parseBlocks bs ts = Inr (ts @ List.map_filter tableOf bs)"
proof (induction bs arbitrary: ts)
  case Nil
  show ?case by (simp add: List.map_filter_simps)
next
  case (Cons b bs)
  show ?case
    by (cases "tableOf b") (simp_all add: parseBlock_tableOf Cons List.map_filter_simps)
qed

lemma tableOf_None: "(tableOf block = None) = (matchTableName block = None \<or> extractBody block = None)"
proof (cases "matchTableName block")
  case None
  then show ?thesis by (simp add: tableOf_def parseBlock_def)
next
  case (Some m)
  then obtain w n where m: "m = [w, n]" using matchTableName_pair by blast
  show ?thesis
  proof (cases "extractBody block")
    case None
    with Some m show ?thesis by (simp add: tableOf_def parseBlock_def)
  next
    case (Some p)
    obtain body after where p: "p = (body, after)" by (cases p)
    obtain tc where tc:
      "(case searchRe matchTableCommentAt after of None \<Rightarrow> Inr [] | Some m \<Rightarrow> groupAt m 1) = Inr tc"
      using tableComment_total by blast
    from \<open>matchTableName block = Some m\<close> m Some p tc show ?thesis
      by (simp add: tableOf_def parseBlock_def primaryKeysOf_tokens parseLines_map_filter)
  qed
qed

lemma tableOf_Some:
  assumes "tableOf block = Some t"
  shows "\<exists>w n body after. matchTableName block = Some [w, n] \<and> extractBody block = Some (body, after) \<and>
     tid t = n \<and> tname t = n \<and>
     columns t = List.map_filter (columnOf (set (pkTokens body))) (splitOn CHR 0x0A [] body)"
proof -
  from assms have "tableOf block \<noteq> None" by simp
  then obtain m p where mm: "matchTableName block = Some m" and pp: "extractBody block = Some p"
    by (auto simp: tableOf_None)
  then obtain w n where m: "m = [w, n]" using matchTableName_pair by blast
  obtain body after where p: "p = (body, after)" by (cases p)
  obtain tc where tc:
    "(case searchRe matchTableCommentAt after of None \<Rightarrow> Inr [] | Some m \<Rightarrow> groupAt m 1) = Inr tc"
    using tableComment_total by blast
  from mm pp m p tc assms show ?thesis
    by (auto simp: tableOf_def parseBlock_def primaryKeysOf_tokens parseLines_map_filter)
qed

lemma columnOf_pk: "columnOf pk l = Some c \<Longrightarrow> isPrimaryKey c = (cname c \<in> pk)"
  by (auto simp: columnOf_def parseLine_def Let_def bindE_def split: option.splits sum.splits if_splits)

lemma length_map_filter_le: "length (List.map_filter f xs) \<le> length xs"
  by (induction xs) (auto simp: List.map_filter_simps split: option.splits)

lemma length_splitOn: "length (splitOn d cur s) = Suc (count_list s d)"
  by (induction s arbitrary: cur) auto

lemma set_map_filter: "c \<in> set (List.map_filter f xs) \<Longrightarrow> \<exists>x \<in> set xs. f x = Some c"
  by (induction xs) (auto simp: List.map_filter_simps split: option.splits)

lemma isWord_not_space: "isWord c \<Longrightarrow> \<not> isSpace c"
  by (auto simp: isSpace_def isWord_def)

lemma isWord_not_special: "isWord c \<Longrightarrow> c \<noteq> CHR ''`'' \<and> c \<noteq> CHR ''('' \<and> c \<noteq> CHR '')''"
  by (auto simp: isWord_def)

lemma isSpace_not_special: "isSpace c \<Longrightarrow> c \<noteq> CHR ''`'' \<and> c \<noteq> CHR ''('' \<and> c \<noteq> CHR '')''"
  by (auto simp: isSpace_def)

lemma not_special: "\<not> isSpace CHR '')''" "\<not> isSpace CHR ''(''" "\<not> isSpace CHR ''`''"
  "\<not> isWord CHR '')''" "\<not> isWord CHR ''(''" "\<not> isWord CHR ''`''"
  by (simp_all add: isSpace_def isWord_def)

lemma dropWhile_stop: "\<not> P b \<Longrightarrow> dropWhile P (ys @ b # zs) = dropWhile P ys @ b # zs"
  by (induction ys) auto

lemma takeWhile_run: "\<forall>x\<in>set xs. P x \<Longrightarrow> \<not> P b \<Longrightarrow> takeWhile P (xs @ b # zs) = xs"
  by (induction xs) auto

lemma dropWhile_run: "\<forall>x\<in>set xs. P x \<Longrightarrow> \<not> P b \<Longrightarrow> dropWhile P (xs @ b # zs) = b # zs"
  by (induction xs) auto

lemma trim_inner:
  assumes "\<not> isSpace a" "\<not> isSpace b"
  shows "trim (a # xs @ b # rest) = a # xs @ b # rev (dropWhile isSpace (rev rest))"
proof -
  have "dropWhile isSpace (rev (a # xs @ b # rest)) = dropWhile isSpace (rev rest) @ b # rev xs @ [a]"
    using dropWhile_stop [of isSpace b "rev rest" "rev xs @ [a]"] assms(2) by simp
  then show ?thesis using assms(1) by (simp add: trim_def)
qed

lemma trim_leading:
  assumes "\<forall>c\<in>set sep. isSpace c" "\<not> isSpace a" "\<not> isSpace b"
  shows "trim (sep @ a # xs @ b # rev (dropWhile isSpace (rev rest))) = a # xs @ b # rev (dropWhile isSpace (rev rest))"
proof -
  let ?r = "rev (dropWhile isSpace (rev rest))"
  have l: "dropWhile isSpace (sep @ a # xs @ b # ?r) = a # xs @ b # ?r"
    using assms by (simp add: dropWhile_run)
  have "rev (dropWhile isSpace (rev (a # xs @ b # ?r))) = a # xs @ b # rev (dropWhile isSpace (rev ?r))"
    using trim_inner [OF assms(2,3), of xs ?r] assms(2) by (simp add: trim_def)
  moreover have "dropWhile isSpace (rev ?r) = dropWhile isSpace (rev rest)"
    by (simp add: dropWhile_idem)
  ultimately show ?thesis unfolding trim_def l by simp
qed

lemma matchType_args:
  assumes "w \<noteq> []" "\<forall>c\<in>set w. isWord c" "args \<noteq> []" "CHR '')'' \<notin> set args"
  shows "matchType (w @ CHR ''('' # args @ CHR '')'' # rest) = Some [w @ CHR ''('' # args @ [CHR '')''], w @ CHR ''('' # args @ [CHR '')'']]"
proof -
  have t: "takeWhile isWord (w @ CHR ''('' # args @ CHR '')'' # rest) = w"
    using assms(2) by (simp add: takeWhile_run not_special)
  have d: "dropWhile isWord (w @ CHR ''('' # args @ CHR '')'' # rest) = CHR ''('' # args @ CHR '')'' # rest"
    using assms(2) by (simp add: dropWhile_run not_special)
  have "takeWhile (\<lambda>c. c \<noteq> CHR '')'') (args @ CHR '')'' # rest) = args"
    using assms(4) by (intro takeWhile_run) auto
  moreover have "dropWhile (\<lambda>c. c \<noteq> CHR '')'') (args @ CHR '')'' # rest) = CHR '')'' # rest"
    using assms(4) by (intro dropWhile_run) auto
  ultimately have "runUntil CHR '')'' (args @ CHR '')'' # rest) = Some (args, rest)"
    using assms(3) by (simp add: runUntil_def)
  then show ?thesis using assms(1)
    unfolding matchType_def t d by (simp add: Let_def)
qed

lemma matchColumnName_quoted:
  assumes "name \<noteq> []" "\<forall>c\<in>set name. isWord c" "q = [] \<or> q = ''`''" "isSpace s"
  shows "matchColumnName (q @ name @ q @ s # rest) = Some [q @ name @ q, name]"
proof -
  obtain n ns where n: "name = n # ns" using assms(1) by (cases name) auto
  with assms(2) have nb: "n \<noteq> CHR ''`''" using isWord_not_special by auto
  have sb: "s \<noteq> CHR ''`''" "\<not> isWord s" using assms(4) isSpace_not_special isWord_not_space by auto
  from assms(3) show ?thesis
  proof
    assume q: "q = []"
    have "optBacktick (name @ s # rest) = ([], name @ s # rest)"
      using nb by (simp add: optBacktick_def n)
    moreover have "takeWhile isWord (name @ s # rest) = name" "dropWhile isWord (name @ s # rest) = s # rest"
      using assms(2) sb by (simp_all add: takeWhile_run dropWhile_run)
    moreover have "optBacktick (s # rest) = ([], s # rest)" using sb by (simp add: optBacktick_def)
    ultimately show ?thesis using assms(1) q by (simp add: matchColumnName_def)
  next
    assume q: "q = ''`''"
    have "optBacktick (q @ name @ q @ s # rest) = (q, name @ CHR ''`'' # s # rest)"
      by (simp add: optBacktick_def q)
    moreover have "takeWhile isWord (name @ CHR ''`'' # s # rest) = name"
      "dropWhile isWord (name @ CHR ''`'' # s # rest) = CHR ''`'' # s # rest"
      using assms(2) by (simp_all add: takeWhile_run dropWhile_run not_special)
    moreover have "optBacktick (CHR ''`'' # s # rest) = (q, s # rest)" by (simp add: optBacktick_def q)
    ultimately show ?thesis using assms(1) by (simp add: matchColumnName_def)
  qed
qed

lemma trim_both:
  assumes "\<forall>c\<in>set lead. isSpace c" "\<not> isSpace a" "\<not> isSpace b"
  shows "trim (lead @ a # xs @ b # rest) = a # xs @ b # rev (dropWhile isSpace (rev rest))"
proof -
  have "dropWhile isSpace (lead @ a # xs @ b # rest) = a # xs @ b # rest"
    using assms by (simp add: dropWhile_run)
  then have "trim (lead @ a # xs @ b # rest) = trim (a # xs @ b # rest)"
    using assms(2) by (simp add: trim_def)
  with trim_inner [OF assms(2,3)] show ?thesis by simp
qed

lemma parseLine_type:
  assumes name: "name \<noteq> []" "\<forall>c\<in>set name. isWord c" "toUpperCase name \<notin> set keywordNames"
    and lead: "\<forall>c\<in>set lead. isSpace c"
    and q: "q = [] \<or> q = ''`''"
    and sep: "sep \<noteq> []" "\<forall>c\<in>set sep. isSpace c"
    and w: "w \<noteq> []" "\<forall>c\<in>set w. isWord c"
    and args: "args \<noteq> []" "CHR '')'' \<notin> set args"
    and line: "line = lead @ q @ name @ q @ sep @ w @ ''('' @ args @ '')'' @ rest"
    and ns: "\<not> skippedLine (trim line)"
  shows "\<exists>c. parseLine pk line = Inr (Some c) \<and> cname c = name \<and> ctype c = w @ ''('' @ args @ '')''"
proof -
  let ?r = "rev (dropWhile isSpace (rev rest))"
  obtain s ss where s: "sep = s # ss" using sep(1) by (cases sep) auto
  obtain v vs where v: "w = v # vs" using w(1) by (cases w) auto
  have vns: "\<not> isSpace v" using w(2) v isWord_not_space by auto
  have hns: "\<not> isSpace (hd (q @ name))"
    using q name(1,2) isWord_not_space by (cases name) (auto simp: not_special)
  have tl: "trim line = q @ name @ q @ sep @ w @ ''('' @ args @ '')'' @ ?r"
  proof -
    obtain a as where a: "q @ name = a # as" using name(1) by (cases "q @ name") auto
    with hns have "\<not> isSpace a" by simp
    from trim_both [OF lead this not_special(1), of "as @ q @ sep @ w @ ''('' @ args" rest]
    have "trim (lead @ (a # as) @ q @ sep @ w @ ''('' @ args @ '')'' @ rest) = (a # as) @ q @ sep @ w @ ''('' @ args @ '')'' @ ?r"
      by simp
    then show ?thesis unfolding a [symmetric] line by simp
  qed
  have m: "matchColumnName (trim line) = Some [q @ name @ q, name]"
    using matchColumnName_quoted [OF name(1,2) q, of s "ss @ w @ ''('' @ args @ '')'' @ ?r"] sep(2) s
    unfolding tl by simp
  have "substringFrom (trim line) (length (q @ name @ q)) = sep @ w @ ''('' @ args @ '')'' @ ?r"
    unfolding tl substringFrom_def by simp
  moreover have "trim (sep @ w @ ''('' @ args @ '')'' @ ?r) = w @ ''('' @ args @ '')'' @ ?r"
    using trim_leading [OF sep(2) vns not_special(1), of "vs @ ''('' @ args" rest] v by simp
  ultimately have rem: "trim (substringFrom (trim line) (length (q @ name @ q))) = w @ ''('' @ args @ '')'' @ ?r"
    by simp
  have ty: "matchType (w @ ''('' @ args @ '')'' @ ?r) = Some [w @ ''('' @ args @ '')'', w @ ''('' @ args @ '')'']"
    using matchType_args [OF w args, of ?r] by simp
  have "\<exists>cm. (case searchRe matchColumnCommentAt (trim line) of None \<Rightarrow> Inr [] | Some m \<Rightarrow> groupAt m 1) = Inr cm"
    by (auto split: option.splits dest!: searchRe_Some matchColumnCommentAt_pair)
  then obtain cm where cm: "(case searchRe matchColumnCommentAt (trim line) of None \<Rightarrow> Inr [] | Some m \<Rightarrow> groupAt m 1) = Inr cm"
    by blast
  show ?thesis
    unfolding parseLine_def Let_def using ns name(3) rem
    by (simp add: m matchType_args [OF w args, of ?r] cm)
qed


lemma columnOf_name: "columnOf pk l = Some c \<Longrightarrow> \<exists>w. matchColumnName (trim l) = Some [w, cname c]"
  by (auto simp: columnOf_def parseLine_def Let_def bindE_def
      split: option.splits sum.splits if_splits dest!: matchColumnName_pair)

lemma length_map_filter_eq:
  "length (List.map_filter f xs) = length (List.filter (\<lambda>x. f x \<noteq> None) xs)"
  by (induction xs) (auto simp: List.map_filter_simps split: option.splits)

section \<open>Malformed blocks\<close>

text \<open>
  C7. A candidate block with no leading identifier, with no opening parenthesis, or whose
  parentheses never balance back to zero yields no table, and every other block yields
  one: the loop body returns \<open>Inr None\<close> exactly on the malformed blocks. The parse goes
  on after a dropped block: the result of \<^verbatim>\<open>parseSQL\<close> is the list of the tables of the
  blocks that are not malformed, in the order of the blocks, one table for each.
\<close>

theorem C7_malformed_blocks_dropped:
  "(parseBlock block = Inr None) = malformed block \<and>
   (tableOf block = None) = malformed block \<and>
   parseSQL sql = Inr (List.map_filter tableOf (tl (splitCreateTable [] sql))) \<and>
   (\<exists>ts. parseSQL sql = Inr ts \<and>
      length ts = length (List.filter (\<lambda>b. \<not> malformed b) (tl (splitCreateTable [] sql))))"
proof -
  have m: "\<And>b. (tableOf b = None) = malformed b"
    by (simp add: tableOf_None extractBody_None malformed_def)
  have p: "parseSQL sql = Inr (List.map_filter tableOf (tl (splitCreateTable [] sql)))"
    by (simp add: parseSQL_def parseBlocks_map_filter)
  have "length (List.map_filter tableOf (tl (splitCreateTable [] sql)))
      = length (List.filter (\<lambda>b. \<not> malformed b) (tl (splitCreateTable [] sql)))"
    by (simp add: length_map_filter_eq m)
  with p m parseBlock_tableOf [of block] show ?thesis by auto
qed

theorem C7_malformed_blocks_dropped_witness:
  "malformed '' b LIKE a; '' \<and> parseBlock '' b LIKE a; '' = Inr None \<and>
   malformed '' (y int); '' \<and> parseBlock '' (y int); '' = Inr None \<and>
   malformed '' c (z decimal(3,1); '' \<and> parseBlock '' c (z decimal(3,1); '' = Inr None \<and>
   parseSQL ''CREATE TABLE a (x int); CREATE TABLE b LIKE a; CREATE TABLE (y int); CREATE TABLE c (z decimal(3,1); CREATE TABLE d (w int);'' =
     Inr [\<lparr>tid = ''a'', tname = ''a'', tcomment = [],
            columns = [\<lparr>cname = ''x'', ctype = ''int'', ccomment = [], isPrimaryKey = False, isNullable = True\<rparr>]\<rparr>,
          \<lparr>tid = ''d'', tname = ''d'', tcomment = [],
            columns = [\<lparr>cname = ''w'', ctype = ''int'', ccomment = [], isPrimaryKey = False, isNullable = True\<rparr>]\<rparr>]"
proof -
  have m1: "malformed '' b LIKE a; ''" by code_simp
  have m2: "malformed '' (y int); ''" by code_simp
  have m3: "malformed '' c (z decimal(3,1); ''" by code_simp
  have bl: "tl (splitCreateTable [] ''CREATE TABLE a (x int); CREATE TABLE b LIKE a; CREATE TABLE (y int); CREATE TABLE c (z decimal(3,1); CREATE TABLE d (w int);'')
      = ['' a (x int); '', '' b LIKE a; '', '' (y int); '', '' c (z decimal(3,1); '', '' d (w int);'']"
    by code_simp
  have t1: "tableOf '' a (x int); '' = Some \<lparr>tid = ''a'', tname = ''a'', tcomment = [],
            columns = [\<lparr>cname = ''x'', ctype = ''int'', ccomment = [], isPrimaryKey = False, isNullable = True\<rparr>]\<rparr>"
    by code_simp
  have t5: "tableOf '' d (w int);'' = Some \<lparr>tid = ''d'', tname = ''d'', tcomment = [],
            columns = [\<lparr>cname = ''w'', ctype = ''int'', ccomment = [], isPrimaryKey = False, isNullable = True\<rparr>]\<rparr>"
    by code_simp
  have n2: "tableOf '' b LIKE a; '' = None"
    using C7_malformed_blocks_dropped [of "'' b LIKE a; ''"] m1 by simp
  have n3: "tableOf '' (y int); '' = None"
    using C7_malformed_blocks_dropped [of "'' (y int); ''"] m2 by simp
  have n4: "tableOf '' c (z decimal(3,1); '' = None"
    using C7_malformed_blocks_dropped [of "'' c (z decimal(3,1); ''"] m3 by simp
  have ps: "parseSQL ''CREATE TABLE a (x int); CREATE TABLE b LIKE a; CREATE TABLE (y int); CREATE TABLE c (z decimal(3,1); CREATE TABLE d (w int);'' =
     Inr (List.map_filter tableOf ['' a (x int); '', '' b LIKE a; '', '' (y int); '', '' c (z decimal(3,1); '', '' d (w int);''])"
    using C7_malformed_blocks_dropped [of "[]" "''CREATE TABLE a (x int); CREATE TABLE b LIKE a; CREATE TABLE (y int); CREATE TABLE c (z decimal(3,1); CREATE TABLE d (w int);''"]
    unfolding bl by blast
  have p2: "parseBlock '' b LIKE a; '' = Inr None"
    using C7_malformed_blocks_dropped [of "'' b LIKE a; ''"] m1 by simp
  have p3: "parseBlock '' (y int); '' = Inr None"
    using C7_malformed_blocks_dropped [of "'' (y int); ''"] m2 by simp
  have p4: "parseBlock '' c (z decimal(3,1); '' = Inr None"
    using C7_malformed_blocks_dropped [of "'' c (z decimal(3,1); ''"] m3 by simp
  show ?thesis
    unfolding ps by (simp only: List.map_filter_simps t1 t5 n2 n3 n4 m1 m2 m3 p2 p3 p4 option.case simp_thms)
qed

section \<open>The table body and the column types\<close>

text \<open>
  C1. For every block that yields a table, the body is the text strictly between the
  block's first opening parenthesis and the closing parenthesis at which the nesting
  counter first returns to zero: the block is \<open>pre ( body ) after\<close> with no opening
  parenthesis in \<open>pre\<close>, the counter is 0 after \<open>body )\<close> and is not 0 after any prefix of
  \<open>body\<close>; the columns are read from the lines of that body. Hence a column line that
  declares a type with a parenthesised argument list, such as \<^verbatim>\<open>decimal(17, 2)\<close>, (a name,
  quoted by backticks or not, white space, the type word, and the arguments up to the
  first closing parenthesis) gets the whole \<open>word(arguments)\<close> as its type, whatever
  commas the arguments hold.
\<close>

theorem C1_body_and_type:
  "(parseBlock block = Inr (Some t) \<longrightarrow>
      (\<exists>pre body after.
         extractBody block = Some (body, after) \<and>
         block = pre @ ''('' @ body @ '')'' @ after \<and> CHR ''('' \<notin> set pre \<and>
         1 + parenDepth (body @ '')'') = 0 \<and>
         (\<forall>n \<le> length body. 1 + parenDepth (take n body) \<noteq> 0) \<and>
         columns t = List.map_filter (columnOf (set (pkTokens body))) (splitOn CHR 0x0A [] body))) \<and>
   (name \<noteq> [] \<and> (\<forall>c\<in>set name. isWord c) \<and> toUpperCase name \<notin> set keywordNames \<and>
    (\<forall>c\<in>set lead. isSpace c) \<and> (q = [] \<or> q = ''`'') \<and>
    sep \<noteq> [] \<and> (\<forall>c\<in>set sep. isSpace c) \<and>
    w \<noteq> [] \<and> (\<forall>c\<in>set w. isWord c) \<and> args \<noteq> [] \<and> CHR '')'' \<notin> set args \<and>
    line = lead @ q @ name @ q @ sep @ w @ ''('' @ args @ '')'' @ rest \<and>
    \<not> skippedLine (trim line) \<longrightarrow>
    (\<exists>c. parseLine pk line = Inr (Some c) \<and> cname c = name \<and>
          ctype c = w @ ''('' @ args @ '')''))"
proof (intro conjI impI)
  assume "parseBlock block = Inr (Some t)"
  then have "tableOf block = Some t" by (simp add: tableOf_def)
  from tableOf_Some [OF this] obtain wh n body after where
    e: "extractBody block = Some (body, after)"
    and c: "columns t = List.map_filter (columnOf (set (pkTokens body))) (splitOn CHR 0x0A [] body)"
    by blast
  from extractBody_Some [OF e] obtain pre where
    b: "block = pre @ CHR ''('' # body @ CHR '')'' # after" and p: "CHR ''('' \<notin> set pre"
    and d: "1 + parenDepth body = 1" and a: "\<forall>n \<le> length body. 0 < 1 + parenDepth (take n body)"
    by blast
  have "1 + parenDepth (body @ '')'') = 0"
    using d by (simp add: parenDepth_append parenDepth_Cons)
  moreover have "\<forall>n \<le> length body. 1 + parenDepth (take n body) \<noteq> 0"
    using a by fastforce
  ultimately show "\<exists>pre body after.
         extractBody block = Some (body, after) \<and>
         block = pre @ ''('' @ body @ '')'' @ after \<and> CHR ''('' \<notin> set pre \<and>
         1 + parenDepth (body @ '')'') = 0 \<and>
         (\<forall>n \<le> length body. 1 + parenDepth (take n body) \<noteq> 0) \<and>
         columns t = List.map_filter (columnOf (set (pkTokens body))) (splitOn CHR 0x0A [] body)"
    using e b p c by (intro exI [of _ pre] exI [of _ body] exI [of _ after]) simp
next
  assume h: "name \<noteq> [] \<and> (\<forall>c\<in>set name. isWord c) \<and> toUpperCase name \<notin> set keywordNames \<and>
    (\<forall>c\<in>set lead. isSpace c) \<and> (q = [] \<or> q = ''`'') \<and>
    sep \<noteq> [] \<and> (\<forall>c\<in>set sep. isSpace c) \<and>
    w \<noteq> [] \<and> (\<forall>c\<in>set w. isWord c) \<and> args \<noteq> [] \<and> CHR '')'' \<notin> set args \<and>
    line = lead @ q @ name @ q @ sep @ w @ ''('' @ args @ '')'' @ rest \<and>
    \<not> skippedLine (trim line)"
  then have 1: "name \<noteq> []" "\<forall>c\<in>set name. isWord c" "toUpperCase name \<notin> set keywordNames"
    and 2: "\<forall>c\<in>set lead. isSpace c" "q = [] \<or> q = ''`''" "sep \<noteq> []" "\<forall>c\<in>set sep. isSpace c"
    and 3: "w \<noteq> []" "\<forall>c\<in>set w. isWord c" "args \<noteq> []" "CHR '')'' \<notin> set args"
    and 4: "line = lead @ q @ name @ q @ sep @ w @ ''('' @ args @ '')'' @ rest"
      "\<not> skippedLine (trim line)"
    by blast+
  show "\<exists>c. parseLine pk line = Inr (Some c) \<and> cname c = name \<and>
          ctype c = w @ ''('' @ args @ '')''"
    by (rule parseLine_type [OF 1 2 3 4])
qed

theorem C1_body_and_type_witness:
  "parseBlock '' `t` (\<newline>  `AMT` decimal(17, 2) NOT NULL,\<newline>  `N` int\<newline>) ENGINE=X'' =
     Inr (Some \<lparr>tid = ''t'', tname = ''t'', tcomment = [],
        columns = [\<lparr>cname = ''AMT'', ctype = ''decimal(17, 2)'', ccomment = [],
                     isPrimaryKey = False, isNullable = False\<rparr>,
                   \<lparr>cname = ''N'', ctype = ''int'', ccomment = [],
                     isPrimaryKey = False, isNullable = True\<rparr>]\<rparr>) \<and>
   extractBody '' `t` (\<newline>  `AMT` decimal(17, 2) NOT NULL,\<newline>  `N` int\<newline>) ENGINE=X'' =
     Some (''\<newline>  `AMT` decimal(17, 2) NOT NULL,\<newline>  `N` int\<newline>'', '' ENGINE=X'') \<and>
   (\<exists>pre body after.
      extractBody '' `t` (\<newline>  `AMT` decimal(17, 2) NOT NULL,\<newline>  `N` int\<newline>) ENGINE=X''
        = Some (body, after) \<and>
      '' `t` (\<newline>  `AMT` decimal(17, 2) NOT NULL,\<newline>  `N` int\<newline>) ENGINE=X''
        = pre @ ''('' @ body @ '')'' @ after \<and>
      CHR ''('' \<notin> set pre \<and> 1 + parenDepth (body @ '')'') = 0) \<and>
   (\<exists>c. parseLine {} ''  `AMT` decimal(17, 2) NOT NULL,'' = Inr (Some c) \<and>
        cname c = ''AMT'' \<and> ctype c = ''decimal(17, 2)'')"
proof -
  let ?block = "'' `t` (\<newline>  `AMT` decimal(17, 2) NOT NULL,\<newline>  `N` int\<newline>) ENGINE=X''"
  let ?t = "\<lparr>tid = ''t'', tname = ''t'', tcomment = [],
        columns = [\<lparr>cname = ''AMT'', ctype = ''decimal(17, 2)'', ccomment = [],
                     isPrimaryKey = False, isNullable = False\<rparr>,
                   \<lparr>cname = ''N'', ctype = ''int'', ccomment = [],
                     isPrimaryKey = False, isNullable = True\<rparr>]\<rparr>"
  have pb: "parseBlock ?block = Inr (Some ?t)" by code_simp
  have eb: "extractBody ?block =
     Some (''\<newline>  `AMT` decimal(17, 2) NOT NULL,\<newline>  `N` int\<newline>'', '' ENGINE=X'')" by code_simp
  have h: "''AMT'' \<noteq> [] \<and> (\<forall>c\<in>set ''AMT''. isWord c) \<and> toUpperCase ''AMT'' \<notin> set keywordNames \<and>
    (\<forall>c\<in>set ''  ''. isSpace c) \<and> (''`'' = [] \<or> ''`'' = ''`'') \<and>
    '' '' \<noteq> [] \<and> (\<forall>c\<in>set '' ''. isSpace c) \<and>
    ''decimal'' \<noteq> [] \<and> (\<forall>c\<in>set ''decimal''. isWord c) \<and> ''17, 2'' \<noteq> [] \<and> CHR '')'' \<notin> set ''17, 2'' \<and>
    ''  `AMT` decimal(17, 2) NOT NULL,'' = ''  '' @ ''`'' @ ''AMT'' @ ''`'' @ '' '' @ ''decimal'' @ ''('' @ ''17, 2'' @ '')'' @ '' NOT NULL,'' \<and>
    \<not> skippedLine (trim ''  `AMT` decimal(17, 2) NOT NULL,'')"
    by code_simp
  note inst = C1_body_and_type [where block = "?block" and t = "?t" and name = "''AMT''"
      and lead = "''  ''" and q = "''`''" and sep = "'' ''" and w = "''decimal''"
      and args = "''17, 2''" and rest = "'' NOT NULL,''" and pk = "{}"
      and line = "''  `AMT` decimal(17, 2) NOT NULL,''"]
  from inst pb have 1: "\<exists>pre body after.
      extractBody ?block = Some (body, after) \<and> ?block = pre @ ''('' @ body @ '')'' @ after \<and>
      CHR ''('' \<notin> set pre \<and> 1 + parenDepth (body @ '')'') = 0"
    by blast
  from inst h have 2: "\<exists>c. parseLine {} ''  `AMT` decimal(17, 2) NOT NULL,'' = Inr (Some c) \<and>
        cname c = ''AMT'' \<and> ctype c = ''decimal'' @ ''('' @ ''17, 2'' @ '')''"
    by blast
  from pb eb 1 2 show ?thesis by simp
qed

lemma columns_of_block:
  assumes "parseBlock block = Inr (Some t)" "extractBody block = Some (body, after)"
  shows "columns t = List.map_filter (columnOf (set (pkTokens body))) (splitOn CHR 0x0A [] body)"
proof -
  from assms(1) have "tableOf block = Some t" by (simp add: tableOf_def)
  from tableOf_Some [OF this] assms(2) show ?thesis by auto
qed

section \<open>Primary keys\<close>

lemma stripPrefixCI_iff:
  "(stripPrefixCI p s = Some r) =
     (\<exists>kw. s = kw @ r \<and> length kw = length p \<and> toUpperCase kw = toUpperCase p)"
proof (induction p s rule: stripPrefixCI.induct)
  case (1 s)
  show ?case by (auto simp: toUpperCase_def)
next
  case (2 p ps)
  show ?case by (auto simp: toUpperCase_def)
next
  case (3 p ps c cs)
  show ?case
  proof (cases "toUpperChar c = toUpperChar p")
    case False
    then show ?thesis by (auto simp: toUpperCase_def Cons_eq_append_conv length_Suc_conv)
  next
    case True
    have "(\<exists>kw. c # cs = kw @ r \<and> length kw = length (p # ps) \<and> toUpperCase kw = toUpperCase (p # ps))
        = (\<exists>kw'. cs = kw' @ r \<and> length kw' = length ps \<and> toUpperCase kw' = toUpperCase ps)"
      (is "?L = ?R")
    proof
      assume ?L
      then obtain kw where kw: "c # cs = kw @ r" "length kw = length (p # ps)"
        "toUpperCase kw = toUpperCase (p # ps)" by blast
      then obtain k kw' where k: "kw = k # kw'" by (cases kw) auto
      with kw show ?R by (auto simp: toUpperCase_def)
    next
      assume ?R
      then obtain kw' where "cs = kw' @ r" "length kw' = length ps" "toUpperCase kw' = toUpperCase ps"
        by blast
      with True show ?L by (intro exI [of _ "c # kw'"]) (simp add: toUpperCase_def)
    qed
    with 3 True show ?thesis by simp
  qed
qed

lemma upper_PRIMARY_KEY: "toUpperCase ''PRIMARY KEY'' = ''PRIMARY KEY''"
  by (simp add: toUpperCase_def toUpperChar_def)

lemma toUpperCase_length: "toUpperCase a = toUpperCase b \<Longrightarrow> length a = length b"
  by (metis length_map toUpperCase_def)

lemma runUntil_iff:
  "(runUntil d s = Some (xs, rest)) = (s = xs @ d # rest \<and> xs \<noteq> [] \<and> d \<notin> set xs)"
proof
  assume a: "runUntil d s = Some (xs, rest)"
  then have r: "xs = takeWhile (\<lambda>c. c \<noteq> d) s" and ne: "xs \<noteq> []"
    and dn: "dropWhile (\<lambda>c. c \<noteq> d) s \<noteq> []" and rest: "rest = tl (dropWhile (\<lambda>c. c \<noteq> d) s)"
    by (auto simp: runUntil_def Let_def split: if_splits)
  from dn have "hd (dropWhile (\<lambda>c. c \<noteq> d) s) = d"
    using hd_dropWhile [of "\<lambda>c. c \<noteq> d" s] by simp
  with dn rest have "dropWhile (\<lambda>c. c \<noteq> d) s = d # rest"
    by (cases "dropWhile (\<lambda>c. c \<noteq> d) s") auto
  then have "s = xs @ d # rest" using r by (metis takeWhile_dropWhile_id)
  moreover have "d \<notin> set xs" using r by (auto dest: set_takeWhileD)
  ultimately show "s = xs @ d # rest \<and> xs \<noteq> [] \<and> d \<notin> set xs" using ne by simp
next
  assume a: "s = xs @ d # rest \<and> xs \<noteq> [] \<and> d \<notin> set xs"
  then have n: "\<forall>x \<in> set xs. x \<noteq> d" by auto
  have "takeWhile (\<lambda>c. c \<noteq> d) (xs @ d # rest) = xs"
    using n by (intro takeWhile_run) simp_all
  moreover have "dropWhile (\<lambda>c. c \<noteq> d) (xs @ d # rest) = d # rest"
    using n by (intro dropWhile_run) simp_all
  ultimately have "takeWhile (\<lambda>c. c \<noteq> d) s = xs" "dropWhile (\<lambda>c. c \<noteq> d) s = d # rest"
    using a by simp_all
  with a show "runUntil d s = Some (xs, rest)" by (simp add: runUntil_def)
qed

lemma matchPrimaryKeyAt_clause:
  "(\<exists>w. matchPrimaryKeyAt s = Some [w, cols]) = pkClauseAt s cols"
proof
  assume "\<exists>w. matchPrimaryKeyAt s = Some [w, cols]"
  then obtain w where m: "matchPrimaryKeyAt s = Some [w, cols]" by blast
  then obtain r r1 rest where r: "stripPrefixCI ''PRIMARY KEY'' s = Some r"
    and d: "dropWhile isSpace r = CHR ''('' # r1"
    and u: "runUntil CHR '')'' r1 = Some (cols, rest)"
    by (auto simp: matchPrimaryKeyAt_def split: option.splits list.splits if_splits)
  from r obtain kw where kw: "s = kw @ r" "toUpperCase kw = ''PRIMARY KEY''"
    by (auto simp: stripPrefixCI_iff upper_PRIMARY_KEY)
  have "r = takeWhile isSpace r @ CHR ''('' # r1"
    using d by (metis takeWhile_dropWhile_id)
  moreover have "\<forall>c \<in> set (takeWhile isSpace r). isSpace c" by (auto dest: set_takeWhileD)
  moreover from u have "r1 = cols @ CHR '')'' # rest" "cols \<noteq> []" "CHR '')'' \<notin> set cols"
    by (simp_all add: runUntil_iff)
  ultimately show "pkClauseAt s cols"
    unfolding pkClauseAt_def using kw
    by (intro exI [of _ kw] exI [of _ "takeWhile isSpace r"] exI [of _ rest]) simp
next
  assume "pkClauseAt s cols"
  then obtain kw ws post where s: "s = kw @ ws @ ''('' @ cols @ '')'' @ post"
    and kw: "toUpperCase kw = ''PRIMARY KEY''" and ws: "\<forall>c \<in> set ws. isSpace c"
    and cols: "cols \<noteq> []" "CHR '')'' \<notin> set cols"
    unfolding pkClauseAt_def by blast
  let ?r = "ws @ CHR ''('' # cols @ CHR '')'' # post"
  have s': "s = kw @ ?r" using s by simp
  have "length kw = length ''PRIMARY KEY''"
    using kw upper_PRIMARY_KEY toUpperCase_length by metis
  then have r: "stripPrefixCI ''PRIMARY KEY'' s = Some ?r"
    unfolding stripPrefixCI_iff using s' kw upper_PRIMARY_KEY by auto
  have d: "dropWhile isSpace ?r = CHR ''('' # cols @ CHR '')'' # post"
    using ws by (simp add: dropWhile_run not_special)
  have u: "runUntil CHR '')'' (cols @ CHR '')'' # post) = Some (cols, post)"
    using cols by (simp add: runUntil_iff)
  show "\<exists>w. matchPrimaryKeyAt s = Some [w, cols]"
    by (simp add: matchPrimaryKeyAt_def r d u)
qed

lemma searchRe_first:
  "k \<le> length s \<Longrightarrow> m (drop k s) = Some r \<Longrightarrow> \<forall>j < k. m (drop j s) = None \<Longrightarrow>
   searchRe m s = Some r"
proof (induction s arbitrary: k)
  case Nil
  then show ?case by simp
next
  case (Cons c cs)
  show ?case
  proof (cases k)
    case 0
    with Cons.prems show ?thesis by simp
  next
    case (Suc k')
    with Cons.prems have "m (c # cs) = None" by (metis drop0 zero_less_Suc)
    moreover have "searchRe m cs = Some r"
    proof (rule Cons.IH [of k'])
      show "k' \<le> length cs" using Cons.prems(1) Suc by simp
      show "m (drop k' cs) = Some r" using Cons.prems(2) Suc by simp
      show "\<forall>j < k'. m (drop j cs) = None"
      proof (intro allI impI)
        fix j assume "j < k'"
        then have "Suc j < k" using Suc by simp
        with Cons.prems(3) have "m (drop (Suc j) (c # cs)) = None" by blast
        then show "m (drop j cs) = None" by simp
      qed
    qed
    ultimately show ?thesis by simp
  qed
qed

lemma searchRe_none:
  "\<forall>j \<le> length s. m (drop j s) = None \<Longrightarrow> searchRe m s = None"
proof (induction s)
  case Nil
  then show ?case by simp
next
  case (Cons c cs)
  from Cons.prems have "m (c # cs) = None" by (metis drop0 le0)
  moreover have "\<forall>j \<le> length cs. m (drop j cs) = None"
  proof (intro allI impI)
    fix j assume "j \<le> length cs"
    then have "Suc j \<le> length (c # cs)" by simp
    with Cons.prems have "m (drop (Suc j) (c # cs)) = None" by blast
    then show "m (drop j cs) = None" by simp
  qed
  ultimately show ?case using Cons.IH by simp
qed

lemma matchPrimaryKeyAt_None:
  "(matchPrimaryKeyAt s = None) = (\<forall>cols. \<not> pkClauseAt s cols)"
proof -
  have "(matchPrimaryKeyAt s \<noteq> None) = (\<exists>cols. pkClauseAt s cols)"
  proof
    assume "matchPrimaryKeyAt s \<noteq> None"
    then obtain m where "matchPrimaryKeyAt s = Some m" by blast
    moreover from this obtain w cols where "m = [w, cols]"
      using matchPrimaryKeyAt_pair by blast
    ultimately show "\<exists>cols. pkClauseAt s cols"
      unfolding matchPrimaryKeyAt_clause [symmetric] by blast
  next
    assume "\<exists>cols. pkClauseAt s cols"
    then show "matchPrimaryKeyAt s \<noteq> None"
      unfolding matchPrimaryKeyAt_clause [symmetric] by auto
  qed
  then show ?thesis by blast
qed

lemma pkTokens_first:
  assumes "k \<le> length body" "pkClauseAt (drop k body) cols"
    "\<forall>j < k. \<forall>cs. \<not> pkClauseAt (drop j body) cs"
  shows "pkTokens body = map stripQuotes (splitOn CHR '','' [] cols)"
proof -
  from assms(2) obtain w where "matchPrimaryKeyAt (drop k body) = Some [w, cols]"
    unfolding matchPrimaryKeyAt_clause [symmetric] by blast
  moreover have "\<forall>j < k. matchPrimaryKeyAt (drop j body) = None"
    using assms(3) by (simp add: matchPrimaryKeyAt_None)
  ultimately have "searchRe matchPrimaryKeyAt body = Some [w, cols]"
    using assms(1) by (intro searchRe_first [of k])
  then show ?thesis by (simp add: pkTokens_def)
qed

lemma pkTokens_none:
  assumes "\<forall>j \<le> length body. \<forall>cs. \<not> pkClauseAt (drop j body) cs"
  shows "pkTokens body = []"
proof -
  have "\<forall>j \<le> length body. matchPrimaryKeyAt (drop j body) = None"
    using assms by (simp add: matchPrimaryKeyAt_None)
  then have "searchRe matchPrimaryKeyAt body = None" by (rule searchRe_none)
  then show ?thesis by (simp add: pkTokens_def)
qed

text \<open>
  C2. For every table that \<^verbatim>\<open>parseSQL\<close> produces from a block and every column of it,
  \<open>isPrimaryKey\<close> holds if and only if the column's name is one of the tokens of the
  first \<^verbatim>\<open>PRIMARY KEY (...)\<close> match (case-insensitive) in the body of the block, the
  list being split at the commas and each piece trimmed and stripped of backticks and
  quotes; when the body has no such match, no column of the table is a primary key. The
  first match is the clause at the least position \<open>k\<close> of the body where a primary key
  clause begins.
\<close>

theorem C2_primary_key_flags:
  "parseBlock block = Inr (Some t) \<Longrightarrow> extractBody block = Some (body, after) \<Longrightarrow>
   c \<in> set (columns t) \<Longrightarrow>
   isPrimaryKey c = (cname c \<in> set (pkTokens body)) \<and>
   (searchRe matchPrimaryKeyAt body = None \<longrightarrow> \<not> isPrimaryKey c) \<and>
   (k \<le> length body \<and> pkClauseAt (drop k body) cols \<and>
    (\<forall>j < k. \<forall>cs. \<not> pkClauseAt (drop j body) cs) \<longrightarrow>
      isPrimaryKey c = (cname c \<in> set (map stripQuotes (splitOn CHR '','' [] cols)))) \<and>
   ((\<forall>j \<le> length body. \<forall>cs. \<not> pkClauseAt (drop j body) cs) \<longrightarrow> \<not> isPrimaryKey c)"
proof -
  assume b: "parseBlock block = Inr (Some t)" and e: "extractBody block = Some (body, after)"
    and c: "c \<in> set (columns t)"
  from c columns_of_block [OF b e] obtain l where "columnOf (set (pkTokens body)) l = Some c"
    by (auto dest: set_map_filter)
  then have 1: "isPrimaryKey c = (cname c \<in> set (pkTokens body))" by (rule columnOf_pk)
  have 2: "searchRe matchPrimaryKeyAt body = None \<longrightarrow> \<not> isPrimaryKey c"
    using 1 by (simp add: pkTokens_def)
  have 3: "k \<le> length body \<and> pkClauseAt (drop k body) cols \<and>
    (\<forall>j < k. \<forall>cs. \<not> pkClauseAt (drop j body) cs) \<longrightarrow>
      isPrimaryKey c = (cname c \<in> set (map stripQuotes (splitOn CHR '','' [] cols)))"
    using 1 pkTokens_first [of k body cols] by auto
  have 4: "(\<forall>j \<le> length body. \<forall>cs. \<not> pkClauseAt (drop j body) cs) \<longrightarrow> \<not> isPrimaryKey c"
    using 1 pkTokens_none [of body] by auto
  from 1 2 3 4 show ?thesis by blast
qed

theorem C2_primary_key_flags_witness:
  "pkTokens ''\<newline>  `A` int NOT NULL,\<newline>  `B` int,\<newline>  `C` int,\<newline>  primary key (`A`, 'C') USING BTREE,\<newline>  PRIMARY KEY (`B`)\<newline>'' = [''A'', ''C''] \<and>
   isPrimaryKey \<lparr>cname = ''A'', ctype = ''int'', ccomment = [], isPrimaryKey = True, isNullable = False\<rparr>
     = (''A'' \<in> set (pkTokens ''\<newline>  `A` int NOT NULL,\<newline>  `B` int,\<newline>  `C` int,\<newline>  primary key (`A`, 'C') USING BTREE,\<newline>  PRIMARY KEY (`B`)\<newline>'')) \<and>
   isPrimaryKey \<lparr>cname = ''B'', ctype = ''int'', ccomment = [], isPrimaryKey = False, isNullable = True\<rparr>
     = (''B'' \<in> set (pkTokens ''\<newline>  `A` int NOT NULL,\<newline>  `B` int,\<newline>  `C` int,\<newline>  primary key (`A`, 'C') USING BTREE,\<newline>  PRIMARY KEY (`B`)\<newline>'')) \<and>
   searchRe matchPrimaryKeyAt ''A int PRIMARY KEY, B int'' = None \<and>
   \<not> isPrimaryKey \<lparr>cname = ''A'', ctype = ''int'', ccomment = [], isPrimaryKey = False, isNullable = True\<rparr> \<and>
   pkClauseAt (drop 7 ''A int,\<newline>primary key(`A`)'') ''`A`'' \<and>
   isPrimaryKey \<lparr>cname = ''A'', ctype = ''int'', ccomment = [], isPrimaryKey = True, isNullable = True\<rparr>
     = (''A'' \<in> set (map stripQuotes (splitOn CHR '','' [] ''`A`'')))"
proof -
  let ?block = "'' t1 (\<newline>  `A` int NOT NULL,\<newline>  `B` int,\<newline>  `C` int,\<newline>  primary key (`A`, 'C') USING BTREE,\<newline>  PRIMARY KEY (`B`)\<newline>) COMMENT='T1';''"
  let ?body = "''\<newline>  `A` int NOT NULL,\<newline>  `B` int,\<newline>  `C` int,\<newline>  primary key (`A`, 'C') USING BTREE,\<newline>  PRIMARY KEY (`B`)\<newline>''"
  let ?a = "\<lparr>cname = ''A'', ctype = ''int'', ccomment = [], isPrimaryKey = True, isNullable = False\<rparr>"
  let ?b = "\<lparr>cname = ''B'', ctype = ''int'', ccomment = [], isPrimaryKey = False, isNullable = True\<rparr>"
  let ?c = "\<lparr>cname = ''C'', ctype = ''int'', ccomment = [], isPrimaryKey = True, isNullable = True\<rparr>"
  let ?t = "\<lparr>tid = ''t1'', tname = ''t1'', tcomment = ''T1'', columns = [?a, ?b, ?c]\<rparr>"
  have pb: "parseBlock ?block = Inr (Some ?t)" by code_simp
  have eb: "extractBody ?block = Some (?body, '' COMMENT='T1';'')" by code_simp
  have tk: "pkTokens ?body = [''A'', ''C'']" by code_simp
  have a: "isPrimaryKey ?a = (cname ?a \<in> set (pkTokens ?body))"
    using C2_primary_key_flags [OF pb eb, of ?a] by simp
  have b: "isPrimaryKey ?b = (cname ?b \<in> set (pkTokens ?body))"
    using C2_primary_key_flags [OF pb eb, of ?b] by simp
  let ?block2 = "'' t2 (A int PRIMARY KEY, B int)''"
  let ?a2 = "\<lparr>cname = ''A'', ctype = ''int'', ccomment = [], isPrimaryKey = False, isNullable = True\<rparr>"
  let ?t2 = "\<lparr>tid = ''t2'', tname = ''t2'', tcomment = [], columns = [?a2]\<rparr>"
  have pb2: "parseBlock ?block2 = Inr (Some ?t2)" by code_simp
  have eb2: "extractBody ?block2 = Some (''A int PRIMARY KEY, B int'', [])" by code_simp
  have no: "searchRe matchPrimaryKeyAt ''A int PRIMARY KEY, B int'' = None" by code_simp
  have n: "\<not> isPrimaryKey ?a2"
    using C2_primary_key_flags [OF pb2 eb2, of ?a2] no by simp
  let ?block3 = "'' t3 (A int,\<newline>primary key(`A`))''"
  let ?body3 = "''A int,\<newline>primary key(`A`)''"
  let ?a3 = "\<lparr>cname = ''A'', ctype = ''int'', ccomment = [], isPrimaryKey = True, isNullable = True\<rparr>"
  let ?t3 = "\<lparr>tid = ''t3'', tname = ''t3'', tcomment = [], columns = [?a3]\<rparr>"
  have pb3: "parseBlock ?block3 = Inr (Some ?t3)" by code_simp
  have eb3: "extractBody ?block3 = Some (?body3, [])" by code_simp
  have "matchPrimaryKeyAt (drop 7 ?body3) = Some [''primary key(`A`)'', ''`A`'']"
    by code_simp
  then have cl: "pkClauseAt (drop 7 ?body3) ''`A`''"
    unfolding matchPrimaryKeyAt_clause [symmetric] by blast
  have "\<forall>j \<in> set [0 ..< 7]. matchPrimaryKeyAt (drop j ?body3) = None"
    by code_simp
  then have first: "\<forall>j < 7. \<forall>cs. \<not> pkClauseAt (drop j ?body3) cs"
    by (simp add: matchPrimaryKeyAt_None)
  have len: "7 \<le> length ?body3" by simp
  have k: "isPrimaryKey ?a3 = (cname ?a3 \<in> set (map stripQuotes (splitOn CHR '','' [] ''`A`'')))"
  proof -
    have mem: "?a3 \<in> set (columns ?t3)" by simp
    from C2_primary_key_flags [OF pb3 eb3 mem, where k = 7 and cols = "''`A`''"] len cl first
    show ?thesis by blast
  qed
  have cn: "cname ?a = ''A''" "cname ?b = ''B''" "cname ?a3 = ''A''" by simp_all
  from a have a': "isPrimaryKey ?a = (''A'' \<in> set (pkTokens ?body))"
    by (simp only: cn)
  from b have b': "isPrimaryKey ?b = (''B'' \<in> set (pkTokens ?body))"
    by (simp only: cn)
  from k have k': "isPrimaryKey ?a3 = (''A'' \<in> set (map stripQuotes (splitOn CHR '','' [] ''`A`'')))"
    by (simp only: cn)
  show ?thesis
  proof (intro conjI)
    show "pkTokens ?body = [''A'', ''C'']" by (rule tk)
    show "isPrimaryKey ?a = (''A'' \<in> set (pkTokens ?body))" by (rule a')
    show "isPrimaryKey ?b = (''B'' \<in> set (pkTokens ?body))" by (rule b')
    show "searchRe matchPrimaryKeyAt ''A int PRIMARY KEY, B int'' = None" by (rule no)
    show "\<not> isPrimaryKey ?a2" by (rule n)
    show "pkClauseAt (drop 7 ?body3) ''`A`''" by (rule cl)
    show "isPrimaryKey ?a3 = (''A'' \<in> set (map stripQuotes (splitOn CHR '','' [] ''`A`'')))"
      by (rule k')
  qed
qed

section \<open>One column for each line\<close>

text \<open>
  C10. The columns of a table are read line by line from the body, at most one for each
  line (a body with \<open>k\<close> line feeds gives at most \<open>k + 1\<close> columns), and the name of a
  column is the identifier at the head of its line. So a body written on one line gives
  at most one column: \<^verbatim>\<open>CREATE TABLE t (a int, b int)\<close> yields the column \<open>a\<close> only,
  while the same two declarations on separate lines yield \<open>a\<close> and \<open>b\<close>.
\<close>

theorem C10_one_column_per_line:
  "(parseBlock block = Inr (Some t) \<and> extractBody block = Some (body, after) \<longrightarrow>
      columns t = List.map_filter (columnOf (set (pkTokens body))) (splitOn CHR 0x0A [] body) \<and>
      length (columns t) \<le> Suc (count_list body (CHR 0x0A)) \<and>
      (CHR 0x0A \<notin> set body \<longrightarrow> length (columns t) \<le> 1) \<and>
      (\<forall>c \<in> set (columns t). \<exists>line \<in> set (splitOn CHR 0x0A [] body).
          \<exists>w. matchColumnName (trim line) = Some [w, cname c])) \<and>
   parseSQL ''CREATE TABLE t (a int, b int)'' =
     Inr [\<lparr>tid = ''t'', tname = ''t'', tcomment = [],
            columns = [\<lparr>cname = ''a'', ctype = ''int'', ccomment = [],
                         isPrimaryKey = False, isNullable = True\<rparr>]\<rparr>] \<and>
   parseSQL ''CREATE TABLE t (a int,\<newline> b int)'' =
     Inr [\<lparr>tid = ''t'', tname = ''t'', tcomment = [],
            columns = [\<lparr>cname = ''a'', ctype = ''int'', ccomment = [],
                         isPrimaryKey = False, isNullable = True\<rparr>,
                       \<lparr>cname = ''b'', ctype = ''int'', ccomment = [],
                         isPrimaryKey = False, isNullable = True\<rparr>]\<rparr>]"
proof (intro conjI impI)
  assume h: "parseBlock block = Inr (Some t) \<and> extractBody block = Some (body, after)"
  then have cols: "columns t = List.map_filter (columnOf (set (pkTokens body))) (splitOn CHR 0x0A [] body)"
    using columns_of_block by blast
  then show "columns t = List.map_filter (columnOf (set (pkTokens body))) (splitOn CHR 0x0A [] body)" .
  have "length (columns t) \<le> length (splitOn CHR 0x0A [] body)"
    unfolding cols by (rule length_map_filter_le)
  then show le: "length (columns t) \<le> Suc (count_list body (CHR 0x0A))"
    by (simp add: length_splitOn)
  show "\<forall>c \<in> set (columns t). \<exists>line \<in> set (splitOn CHR 0x0A [] body).
          \<exists>w. matchColumnName (trim line) = Some [w, cname c]"
    unfolding cols by (blast dest: set_map_filter columnOf_name)
  assume "CHR 0x0A \<notin> set body"
  then have "count_list body (CHR 0x0A) = 0" by (simp add: count_list_0_iff)
  with le show "length (columns t) \<le> 1" by simp
next
  show "parseSQL ''CREATE TABLE t (a int, b int)'' =
     Inr [\<lparr>tid = ''t'', tname = ''t'', tcomment = [],
            columns = [\<lparr>cname = ''a'', ctype = ''int'', ccomment = [],
                         isPrimaryKey = False, isNullable = True\<rparr>]\<rparr>]"
    by code_simp
next
  show "parseSQL ''CREATE TABLE t (a int,\<newline> b int)'' =
     Inr [\<lparr>tid = ''t'', tname = ''t'', tcomment = [],
            columns = [\<lparr>cname = ''a'', ctype = ''int'', ccomment = [],
                         isPrimaryKey = False, isNullable = True\<rparr>,
                       \<lparr>cname = ''b'', ctype = ''int'', ccomment = [],
                         isPrimaryKey = False, isNullable = True\<rparr>]\<rparr>]"
    by code_simp
qed

theorem C10_one_column_per_line_witness:
  "parseBlock '' t (a int, b int)'' =
     Inr (Some \<lparr>tid = ''t'', tname = ''t'', tcomment = [],
            columns = [\<lparr>cname = ''a'', ctype = ''int'', ccomment = [],
                         isPrimaryKey = False, isNullable = True\<rparr>]\<rparr>) \<and>
   extractBody '' t (a int, b int)'' = Some (''a int, b int'', []) \<and>
   CHR 0x0A \<notin> set ''a int, b int'' \<and>
   length (columns \<lparr>tid = ''t'', tname = ''t'', tcomment = [],
            columns = [\<lparr>cname = ''a'', ctype = ''int'', ccomment = [],
                         isPrimaryKey = False, isNullable = True\<rparr>]\<rparr>) \<le> 1"
proof -
  let ?t = "\<lparr>tid = ''t'', tname = ''t'', tcomment = [],
            columns = [\<lparr>cname = ''a'', ctype = ''int'', ccomment = [],
                         isPrimaryKey = False, isNullable = True\<rparr>]\<rparr>"
  have pb: "parseBlock '' t (a int, b int)'' = Inr (Some ?t)" by code_simp
  have eb: "extractBody '' t (a int, b int)'' = Some (''a int, b int'', [])" by code_simp
  have nl: "CHR 0x0A \<notin> set ''a int, b int''" by simp
  from C10_one_column_per_line [of "'' t (a int, b int)''" ?t "''a int, b int''" "[]"] pb eb nl
  have "length (columns ?t) \<le> 1" by blast
  with pb eb nl show ?thesis by blast
qed

section \<open>The key-provider mapping and the edges\<close>

lemma registerKey_other:
  "\<not> (qualifies c \<and> cname c = n) \<Longrightarrow> registerKey t m c n = m n"
  by (auto simp: registerKey_def qualifies_def)

lemma registerKey_same:
  "qualifies c \<Longrightarrow> cname c = n \<Longrightarrow>
   registerKey t m c n =
     (if n = ''CLIENT_NO'' \<and> tname t = ''cif_client'' then Some (tid t)
      else (case m n of None \<Rightarrow> Some (tid t) | Some v \<Rightarrow> Some v))"
  by (auto simp: registerKey_def qualifies_def split: option.splits)

lemma registerKeys:
  "foldl (registerKey t) m cs n =
     (if \<exists>c \<in> set cs. qualifies c \<and> cname c = n
      then (if n = ''CLIENT_NO'' \<and> tname t = ''cif_client'' then Some (tid t)
            else (case m n of None \<Rightarrow> Some (tid t) | Some v \<Rightarrow> Some v))
      else m n)"
proof (induction cs rule: rev_induct)
  case Nil
  show ?case by simp
next
  case (snoc c cs)
  show ?case
  proof (cases "qualifies c \<and> cname c = n")
    case True
    then show ?thesis
      by (simp add: registerKey_same snoc split: option.splits)
  next
    case False
    then have "registerKey t (foldl (registerKey t) m cs) c n = foldl (registerKey t) m cs n"
      by (rule registerKey_other)
    with False snoc show ?thesis by auto
  qed
qed

lemma keyOwner_Nil [simp]: "keyOwner [] n = None"
  by (simp add: keyOwner_def)

lemma keyOwner_snoc:
  "keyOwner (ts @ [t]) n =
     (if provides n t
      then (if n = ''CLIENT_NO'' \<and> tname t = ''cif_client'' then Some (tid t)
            else (case keyOwner ts n of None \<Rightarrow> Some (tid t) | Some v \<Rightarrow> Some v))
      else keyOwner ts n)"
proof (cases "provides n t")
  case False
  then have "\<not> clientMaster n t" by (simp add: clientMaster_def)
  with False show ?thesis by (simp add: keyOwner_def)
next
  case True
  show ?thesis
  proof (cases "n = ''CLIENT_NO'' \<and> tname t = ''cif_client''")
    case c: True
    with True have "clientMaster n t" by (simp add: clientMaster_def)
    with True c show ?thesis by (simp add: keyOwner_def)
  next
    case c: False
    then have nc: "\<not> clientMaster n t" by (auto simp: clientMaster_def)
    show ?thesis
    proof (cases "\<exists>u \<in> set ts. clientMaster n u")
      case m: True
      with nc True c show ?thesis by (auto simp: keyOwner_def)
    next
      case m: False
      with nc True c show ?thesis
        by (cases "List.filter (provides n) ts") (auto simp: keyOwner_def)
    qed
  qed
qed

lemma buildPkMap_keyOwner: "buildPkMap tables n = keyOwner tables n"
proof (induction tables rule: rev_induct)
  case Nil
  show ?case by (simp add: buildPkMap_def)
next
  case (snoc t ts)
  have "buildPkMap (ts @ [t]) n = foldl (registerKey t) (buildPkMap ts) (columns t) n"
    by (simp add: buildPkMap_def)
  also have "\<dots> = keyOwner (ts @ [t]) n"
    unfolding registerKeys keyOwner_snoc snoc provides_def by auto
  finally show ?case .
qed

lemma buildPkMap_eq: "buildPkMap tables = keyOwner tables"
  by (rule ext) (rule buildPkMap_keyOwner)

lemma keyOwner_provider:
  assumes "keyOwner tables n = Some i"
  shows "\<exists>t \<in> set tables. tid t = i \<and> provides n t"
proof (cases "\<exists>t \<in> set tables. clientMaster n t")
  case True
  then have ne: "List.filter (clientMaster n) tables \<noteq> []"
    by (simp add: filter_empty_conv)
  then have "last (List.filter (clientMaster n) tables) \<in> set (List.filter (clientMaster n) tables)"
    by (rule last_in_set)
  moreover from assms True have "i = tid (last (List.filter (clientMaster n) tables))"
    by (simp add: keyOwner_def)
  ultimately show ?thesis by (auto simp: clientMaster_def)
next
  case False
  with assms obtain t r where f: "List.filter (provides n) tables = t # r" and i: "i = tid t"
    by (auto simp: keyOwner_def split: list.splits)
  then have "t \<in> set (List.filter (provides n) tables)" by simp
  with i show ?thesis by auto
qed

lemma pushEdge_edgesOf:
  "pushEdge pk t es c = es @ List.filter (\<lambda>e. target e \<noteq> []) (edgesOf pk t c)"
  by (auto simp: pushEdge_def edgesOf_def newEdge_def split: option.splits)

lemma pushEdges_edgesOf:
  "foldl (pushEdge pk t) es cs
     = es @ List.filter (\<lambda>e. target e \<noteq> []) (concat (map (edgesOf pk t) cs))"
  by (induction cs arbitrary: es) (simp_all add: pushEdge_edgesOf)

lemma pushTables_edgesOf:
  "foldl (\<lambda>newEdges t. foldl (pushEdge pk t) newEdges (columns t)) es ts
     = es @ List.filter (\<lambda>e. target e \<noteq> [])
              (concat (map (\<lambda>t. concat (map (edgesOf pk t) (columns t))) ts))"
  by (induction ts arbitrary: es) (simp_all add: pushEdges_edgesOf)

lemma inferEdges_filter:
  "inferEdges tables = List.filter (\<lambda>e. target e \<noteq> []) (expectedEdges tables)"
  by (simp add: inferEdges_def expectedEdges_def pushTables_edgesOf buildPkMap_eq)

lemma expectedEdges_member:
  assumes "e \<in> set (expectedEdges tables)"
  shows "\<exists>t \<in> set tables. \<exists>c \<in> set (columns t). \<exists>i.
           keyOwner tables (cname c) = Some i \<and> cname c \<notin> IGNORED_FK_COLUMNS \<and> i \<noteq> tid t \<and>
           e = newEdge t c i"
proof -
  from assms obtain t c where t: "t \<in> set tables" and c: "c \<in> set (columns t)"
    and e: "e \<in> set (edgesOf (keyOwner tables) t c)"
    by (auto simp: expectedEdges_def)
  from e obtain i where "keyOwner tables (cname c) = Some i" "cname c \<notin> IGNORED_FK_COLUMNS"
    "i \<noteq> tid t" "e = newEdge t c i"
    by (cases "keyOwner tables (cname c)") (auto simp: edgesOf_def split: if_splits)
  with t c show ?thesis by blast
qed

lemma expectedEdges_target:
  assumes "e \<in> set (expectedEdges tables)"
  shows "target e \<in> tid ` set tables"
proof -
  from expectedEdges_member [OF assms] obtain t c i where
    "keyOwner tables (cname c) = Some i" "e = newEdge t c i" by blast
  with keyOwner_provider show ?thesis by (fastforce simp: newEdge_def)
qed

lemma inferEdges_expected:
  assumes "\<forall>t \<in> set tables. tid t \<noteq> []"
  shows "inferEdges tables = expectedEdges tables"
proof -
  have "\<forall>e \<in> set (expectedEdges tables). target e \<noteq> []"
    using expectedEdges_target assms by fastforce
  then show ?thesis by (simp add: inferEdges_filter)
qed

lemma inferEdges_member:
  assumes "e \<in> set (inferEdges tables)"
  shows "\<exists>t \<in> set tables. \<exists>c \<in> set (columns t). \<exists>i.
           keyOwner tables (cname c) = Some i \<and> cname c \<notin> IGNORED_FK_COLUMNS \<and> i \<noteq> tid t \<and>
           e = newEdge t c i"
  using assms expectedEdges_member by (simp add: inferEdges_filter)

lemma tableOf_tid: "tableOf b = Some t \<Longrightarrow> tid t \<noteq> []"
proof -
  assume a: "tableOf b = Some t"
  from tableOf_Some [OF a] obtain w n where "matchTableName b = Some [w, n]" "tid t = n" by blast
  then show ?thesis
    by (auto simp: matchTableName_def Let_def split: prod.splits if_splits)
qed

lemma parseSQL_tid:
  assumes "parseSQL sql = Inr tables" "t \<in> set tables"
  shows "tid t \<noteq> []"
proof -
  from assms(1) have "tables = List.map_filter tableOf (tl (splitCreateTable [] sql))"
    by (simp add: parseSQL_def parseBlocks_map_filter)
  with assms(2) obtain b where "tableOf b = Some t" by (auto dest: set_map_filter)
  then show ?thesis by (rule tableOf_tid)
qed

section \<open>The invariant of the selection machine\<close>

lemma entry_addNeighbours:
  "(case addNeighbours m e s of None \<Rightarrow> {} | Some ns \<Rightarrow> ns)
     = (case m s of None \<Rightarrow> {} | Some ns \<Rightarrow> ns) \<union> linkedTo [e] s"
  by (auto simp: addNeighbours_def linkedTo_def Let_def split: option.splits if_splits)

lemma entry_foldl:
  "(case foldl addNeighbours m es s of None \<Rightarrow> {} | Some ns \<Rightarrow> ns)
     = (case m s of None \<Rightarrow> {} | Some ns \<Rightarrow> ns) \<union> linkedTo es s"
proof (induction es arbitrary: m)
  case Nil
  show ?case by (simp add: linkedTo_def)
next
  case (Cons e es)
  have "linkedTo (e # es) s = linkedTo [e] s \<union> linkedTo es s"
    by (auto simp: linkedTo_def)
  then show ?case by (simp add: Cons entry_addNeighbours Un_assoc)
qed

lemma neighbours_linkedTo: "neighbours es s = linkedTo es s"
  using entry_foldl [of Map.empty es s] by (simp add: neighbours_def adjacency_def)

lemma styleEdge_ends [simp]:
  "source (styleEdge s e) = source e" "target (styleEdge s e) = target e"
  by (simp_all add: styleEdge_def Let_def)

lemma styleNode_nid [simp]: "nid (styleNode s adj n) = nid n"
  by (simp add: styleNode_def Let_def)

lemma addNeighbours_style: "addNeighbours m (styleEdge s e) = addNeighbours m e"
  by (simp only: addNeighbours_def styleEdge_ends)

lemma adjacency_style: "foldl addNeighbours m (map (styleEdge s) es) = foldl addNeighbours m es"
  by (induction es arbitrary: m) (simp_all add: addNeighbours_style)

lemma edges_restyle: "adjacency (edges (restyle d)) = adjacency (edges d)"
  by (simp add: restyle_def adjacency_def adjacency_style)

lemma selected_restyle [simp]: "selectedNodeId (restyle d) = selectedNodeId d"
  by (simp add: restyle_def)

lemma nids_restyle [simp]: "map nid (nodes (restyle d)) = map nid (nodes d)"
  by (simp add: restyle_def comp_def)

lemma styleNode_flags:
  assumes "s = None \<or> truthy s"
  shows "selected (styleNode s adj n) = Some (s = Some (nid n))"
    and "dimmed (styleNode s adj n) =
      Some (case s of None \<Rightarrow> False
            | Some i \<Rightarrow> nid n \<noteq> i \<and> nid n \<notin> (case adj i of None \<Rightarrow> {} | Some ns \<Rightarrow> ns))"
  using assms
  by (auto simp: styleNode_def Let_def truthy_def split: option.splits)

lemma styleEdge_flags:
  assumes "s = None \<or> truthy s"
  shows "animated (styleEdge s e) = (case s of None \<Rightarrow> False | Some i \<Rightarrow> source e = i \<or> target e = i)"
    and "opacity (styleEdge s e) =
      Some (if s \<noteq> None \<and> \<not> (case s of None \<Rightarrow> False | Some i \<Rightarrow> source e = i \<or> target e = i)
            then 1 / 5 else 1)"
  using assms
  by (auto simp: styleEdge_def Let_def truthy_def split: option.splits)

lemma restyle_styled:
  assumes "selectedNodeId d = None \<or> truthy (selectedNodeId d)"
  shows "styled (restyle d)"
proof -
  have n: "\<And>n. n \<in> set (nodes (restyle d)) \<Longrightarrow>
      selected n = Some (selectedNodeId (restyle d) = Some (nid n)) \<and>
      dimmed n = Some (nodeDimmed (restyle d) n)"
  proof -
    fix n assume "n \<in> set (nodes (restyle d))"
    then obtain n0 where n0: "n = styleNode (selectedNodeId d) (adjacency (edges d)) n0"
      by (auto simp: restyle_def)
    show "selected n = Some (selectedNodeId (restyle d) = Some (nid n)) \<and>
      dimmed n = Some (nodeDimmed (restyle d) n)"
      unfolding n0 using styleNode_flags [OF assms, of "adjacency (edges d)" n0]
      by (simp add: nodeDimmed_def neighbours_def edges_restyle split: option.splits)
  qed
  have e: "\<And>e. e \<in> set (edges (restyle d)) \<Longrightarrow>
      animated e = edgeEmphasized (restyle d) e \<and>
      opacity e = Some (if selectedNodeId (restyle d) \<noteq> None \<and> \<not> edgeEmphasized (restyle d) e
                        then 1 / 5 else 1)"
  proof -
    fix e assume "e \<in> set (edges (restyle d))"
    then obtain e0 where e0: "e = styleEdge (selectedNodeId d) e0"
      by (auto simp: restyle_def)
    show "animated e = edgeEmphasized (restyle d) e \<and>
      opacity e = Some (if selectedNodeId (restyle d) \<noteq> None \<and> \<not> edgeEmphasized (restyle d) e
                        then 1 / 5 else 1)"
      unfolding e0 using styleEdge_flags [OF assms, of e0]
      by (simp add: edgeEmphasized_def split: option.splits)
  qed
  from n e show ?thesis unfolding styled_def by blast
qed

lemma mount_wellSelected:
  assumes "\<forall>t \<in> set tables. tid t \<noteq> []"
  shows "wellSelected (mount tables)"
proof -
  have "styled (mount tables)"
    unfolding mount_def by (rule restyle_styled) (simp add: initDiagram_def)
  moreover have "map nid (nodes (mount tables)) = map tid tables"
    by (simp add: mount_def initDiagram_def getLayoutedNodes_def comp_def)
  ultimately show ?thesis using assms by (simp add: wellSelected_def)
qed

lemma step_wellSelected:
  assumes "wellSelected d" "step d ev = Some d'"
  shows "wellSelected d'"
proof (cases ev)
  case (NodeClick i)
  with assms(2) have i: "i \<in> set (map nid (nodes d))"
    and d': "d' = restyle (d\<lparr>selectedNodeId := Some i\<rparr>)"
    by (auto split: if_splits)
  from i assms(1) have "i \<noteq> []" unfolding wellSelected_def by blast
  then have "styled d'" unfolding d' by (intro restyle_styled) (simp add: truthy_def)
  moreover have "map nid (nodes d') = map nid (nodes d)" unfolding d' by simp
  ultimately show ?thesis using assms(1) by (simp add: wellSelected_def)
next
  case PaneClick
  with assms(2) have d': "d' = restyle (d\<lparr>selectedNodeId := None\<rparr>)" by simp
  have "styled d'" unfolding d' by (intro restyle_styled) simp
  moreover have "map nid (nodes d') = map nid (nodes d)" unfolding d' by simp
  ultimately show ?thesis using assms(1) by (simp add: wellSelected_def)
qed

lemma run_wellSelected:
  "wellSelected d \<Longrightarrow> run d evs = Some d' \<Longrightarrow> wellSelected d'"
proof (induction evs arbitrary: d)
  case Nil
  then show ?case by simp
next
  case (Cons ev evs)
  from Cons.prems(2) obtain d1 where s: "step d ev = Some d1" and r: "run d1 evs = Some d'"
    by (auto split: option.splits)
  from step_wellSelected [OF Cons.prems(1) s] r show ?case by (rule Cons.IH)
qed

section \<open>The key-provider mapping, the edges and the highlighting: the claims\<close>

text \<open>
  C4. A column name is registered in the key-provider mapping only for a table that has
  a column of that name which is a primary key, is not in the exclusion set and is not
  named \<open>ID\<close> in any letter case. The mapping sends a name to the first table in schema
  order that has such a column, except that \<^verbatim>\<open>CLIENT_NO\<close> goes to the table named
  \<^verbatim>\<open>cif_client\<close> whenever that table has such a column, wherever it stands in the
  schema.
\<close>

theorem C4_key_provider_mapping:
  "buildPkMap tables n = keyOwner tables n \<and>
   (buildPkMap tables n = Some i \<longrightarrow>
      (\<exists>t \<in> set tables. \<exists>c \<in> set (columns t).
         tid t = i \<and> cname c = n \<and> isPrimaryKey c \<and> cname c \<notin> IGNORED_FK_COLUMNS \<and>
         toUpperCase (cname c) \<noteq> ''ID''))"
proof (intro conjI impI)
  show "buildPkMap tables n = keyOwner tables n" by (rule buildPkMap_keyOwner)
next
  assume "buildPkMap tables n = Some i"
  then have "keyOwner tables n = Some i" by (simp add: buildPkMap_keyOwner)
  from keyOwner_provider [OF this] show "\<exists>t \<in> set tables. \<exists>c \<in> set (columns t).
         tid t = i \<and> cname c = n \<and> isPrimaryKey c \<and> cname c \<notin> IGNORED_FK_COLUMNS \<and>
         toUpperCase (cname c) \<noteq> ''ID''"
    by (auto simp: provides_def qualifies_def)
qed

theorem C4_key_provider_mapping_witness:
  "buildPkMap
     [\<lparr>tid = ''acct'', tname = ''acct'', tcomment = [], columns = [\<lparr>cname = ''CLIENT_NO'', ctype = ''int'', ccomment = [], isPrimaryKey = True, isNullable = True\<rparr>, \<lparr>cname = ''ACCT_NO'', ctype = ''int'', ccomment = [], isPrimaryKey = True, isNullable = True\<rparr>, \<lparr>cname = ''id'', ctype = ''int'', ccomment = [], isPrimaryKey = True, isNullable = True\<rparr>, \<lparr>cname = ''COMPANY'', ctype = ''int'', ccomment = [], isPrimaryKey = True, isNullable = True\<rparr>]\<rparr>,
      \<lparr>tid = ''cif_client'', tname = ''cif_client'', tcomment = [], columns = [\<lparr>cname = ''CLIENT_NO'', ctype = ''int'', ccomment = [], isPrimaryKey = True, isNullable = True\<rparr>]\<rparr>,
      \<lparr>tid = ''loan'', tname = ''loan'', tcomment = [], columns = [\<lparr>cname = ''ACCT_NO'', ctype = ''int'', ccomment = [], isPrimaryKey = True, isNullable = True\<rparr>, \<lparr>cname = ''CLIENT_NO'', ctype = ''int'', ccomment = [], isPrimaryKey = True, isNullable = True\<rparr>]\<rparr>] ''CLIENT_NO'' = Some ''cif_client'' \<and>
   buildPkMap
     [\<lparr>tid = ''acct'', tname = ''acct'', tcomment = [], columns = [\<lparr>cname = ''CLIENT_NO'', ctype = ''int'', ccomment = [], isPrimaryKey = True, isNullable = True\<rparr>, \<lparr>cname = ''ACCT_NO'', ctype = ''int'', ccomment = [], isPrimaryKey = True, isNullable = True\<rparr>, \<lparr>cname = ''id'', ctype = ''int'', ccomment = [], isPrimaryKey = True, isNullable = True\<rparr>, \<lparr>cname = ''COMPANY'', ctype = ''int'', ccomment = [], isPrimaryKey = True, isNullable = True\<rparr>]\<rparr>,
      \<lparr>tid = ''cif_client'', tname = ''cif_client'', tcomment = [], columns = [\<lparr>cname = ''CLIENT_NO'', ctype = ''int'', ccomment = [], isPrimaryKey = True, isNullable = True\<rparr>]\<rparr>,
      \<lparr>tid = ''loan'', tname = ''loan'', tcomment = [], columns = [\<lparr>cname = ''ACCT_NO'', ctype = ''int'', ccomment = [], isPrimaryKey = True, isNullable = True\<rparr>, \<lparr>cname = ''CLIENT_NO'', ctype = ''int'', ccomment = [], isPrimaryKey = True, isNullable = True\<rparr>]\<rparr>] ''ACCT_NO'' = Some ''acct'' \<and>
   buildPkMap
     [\<lparr>tid = ''acct'', tname = ''acct'', tcomment = [], columns = [\<lparr>cname = ''CLIENT_NO'', ctype = ''int'', ccomment = [], isPrimaryKey = True, isNullable = True\<rparr>, \<lparr>cname = ''ACCT_NO'', ctype = ''int'', ccomment = [], isPrimaryKey = True, isNullable = True\<rparr>, \<lparr>cname = ''id'', ctype = ''int'', ccomment = [], isPrimaryKey = True, isNullable = True\<rparr>, \<lparr>cname = ''COMPANY'', ctype = ''int'', ccomment = [], isPrimaryKey = True, isNullable = True\<rparr>]\<rparr>,
      \<lparr>tid = ''cif_client'', tname = ''cif_client'', tcomment = [], columns = [\<lparr>cname = ''CLIENT_NO'', ctype = ''int'', ccomment = [], isPrimaryKey = True, isNullable = True\<rparr>]\<rparr>,
      \<lparr>tid = ''loan'', tname = ''loan'', tcomment = [], columns = [\<lparr>cname = ''ACCT_NO'', ctype = ''int'', ccomment = [], isPrimaryKey = True, isNullable = True\<rparr>, \<lparr>cname = ''CLIENT_NO'', ctype = ''int'', ccomment = [], isPrimaryKey = True, isNullable = True\<rparr>]\<rparr>] ''id'' = None \<and>
   buildPkMap
     [\<lparr>tid = ''acct'', tname = ''acct'', tcomment = [], columns = [\<lparr>cname = ''CLIENT_NO'', ctype = ''int'', ccomment = [], isPrimaryKey = True, isNullable = True\<rparr>, \<lparr>cname = ''ACCT_NO'', ctype = ''int'', ccomment = [], isPrimaryKey = True, isNullable = True\<rparr>, \<lparr>cname = ''id'', ctype = ''int'', ccomment = [], isPrimaryKey = True, isNullable = True\<rparr>, \<lparr>cname = ''COMPANY'', ctype = ''int'', ccomment = [], isPrimaryKey = True, isNullable = True\<rparr>]\<rparr>,
      \<lparr>tid = ''cif_client'', tname = ''cif_client'', tcomment = [], columns = [\<lparr>cname = ''CLIENT_NO'', ctype = ''int'', ccomment = [], isPrimaryKey = True, isNullable = True\<rparr>]\<rparr>,
      \<lparr>tid = ''loan'', tname = ''loan'', tcomment = [], columns = [\<lparr>cname = ''ACCT_NO'', ctype = ''int'', ccomment = [], isPrimaryKey = True, isNullable = True\<rparr>, \<lparr>cname = ''CLIENT_NO'', ctype = ''int'', ccomment = [], isPrimaryKey = True, isNullable = True\<rparr>]\<rparr>] ''COMPANY'' = None \<and>
   (\<exists>t \<in> set
     [\<lparr>tid = ''acct'', tname = ''acct'', tcomment = [], columns = [\<lparr>cname = ''CLIENT_NO'', ctype = ''int'', ccomment = [], isPrimaryKey = True, isNullable = True\<rparr>, \<lparr>cname = ''ACCT_NO'', ctype = ''int'', ccomment = [], isPrimaryKey = True, isNullable = True\<rparr>, \<lparr>cname = ''id'', ctype = ''int'', ccomment = [], isPrimaryKey = True, isNullable = True\<rparr>, \<lparr>cname = ''COMPANY'', ctype = ''int'', ccomment = [], isPrimaryKey = True, isNullable = True\<rparr>]\<rparr>,
      \<lparr>tid = ''cif_client'', tname = ''cif_client'', tcomment = [], columns = [\<lparr>cname = ''CLIENT_NO'', ctype = ''int'', ccomment = [], isPrimaryKey = True, isNullable = True\<rparr>]\<rparr>,
      \<lparr>tid = ''loan'', tname = ''loan'', tcomment = [], columns = [\<lparr>cname = ''ACCT_NO'', ctype = ''int'', ccomment = [], isPrimaryKey = True, isNullable = True\<rparr>, \<lparr>cname = ''CLIENT_NO'', ctype = ''int'', ccomment = [], isPrimaryKey = True, isNullable = True\<rparr>]\<rparr>]. \<exists>c \<in> set (columns t).
      tid t = ''cif_client'' \<and> cname c = ''CLIENT_NO'' \<and> isPrimaryKey c \<and>
      cname c \<notin> IGNORED_FK_COLUMNS \<and> toUpperCase (cname c) \<noteq> ''ID'')"
proof -
  let ?W = "[\<lparr>tid = ''acct'', tname = ''acct'', tcomment = [], columns = [\<lparr>cname = ''CLIENT_NO'', ctype = ''int'', ccomment = [], isPrimaryKey = True, isNullable = True\<rparr>, \<lparr>cname = ''ACCT_NO'', ctype = ''int'', ccomment = [], isPrimaryKey = True, isNullable = True\<rparr>, \<lparr>cname = ''id'', ctype = ''int'', ccomment = [], isPrimaryKey = True, isNullable = True\<rparr>, \<lparr>cname = ''COMPANY'', ctype = ''int'', ccomment = [], isPrimaryKey = True, isNullable = True\<rparr>]\<rparr>,
      \<lparr>tid = ''cif_client'', tname = ''cif_client'', tcomment = [], columns = [\<lparr>cname = ''CLIENT_NO'', ctype = ''int'', ccomment = [], isPrimaryKey = True, isNullable = True\<rparr>]\<rparr>,
      \<lparr>tid = ''loan'', tname = ''loan'', tcomment = [], columns = [\<lparr>cname = ''ACCT_NO'', ctype = ''int'', ccomment = [], isPrimaryKey = True, isNullable = True\<rparr>, \<lparr>cname = ''CLIENT_NO'', ctype = ''int'', ccomment = [], isPrimaryKey = True, isNullable = True\<rparr>]\<rparr>]"
  have k1: "keyOwner ?W ''CLIENT_NO'' = Some ''cif_client''" by code_simp
  have k2: "keyOwner ?W ''ACCT_NO'' = Some ''acct''" by code_simp
  have k3: "keyOwner ?W ''id'' = None" by code_simp
  have k4: "keyOwner ?W ''COMPANY'' = None" by code_simp
  from C4_key_provider_mapping [of ?W "''CLIENT_NO''" "''cif_client''"] k1
  have 1: "buildPkMap ?W ''CLIENT_NO'' = Some ''cif_client''"
    and 5: "\<exists>t \<in> set ?W. \<exists>c \<in> set (columns t).
      tid t = ''cif_client'' \<and> cname c = ''CLIENT_NO'' \<and> isPrimaryKey c \<and>
      cname c \<notin> IGNORED_FK_COLUMNS \<and> toUpperCase (cname c) \<noteq> ''ID''"
    by simp_all
  from C4_key_provider_mapping [of ?W "''ACCT_NO''"] k2
  have 2: "buildPkMap ?W ''ACCT_NO'' = Some ''acct''" by simp
  from C4_key_provider_mapping [of ?W "''id''"] k3
  have 3: "buildPkMap ?W ''id'' = None" by simp
  from C4_key_provider_mapping [of ?W "''COMPANY''"] k4
  have 4: "buildPkMap ?W ''COMPANY'' = None" by simp
  from 1 2 3 4 5 show ?thesis by blast
qed

text \<open>
  C3. The edges are, table by table and column by column in schema order, one edge for
  each (table, column) pair whose column is not in the exclusion set, whose name is a key
  of the key-provider mapping and whose mapped table is not the current one; the edge
  runs from the current table to the mapped one and bears the column's name in its id and
  its handles. Nothing is removed from that list, so two columns of one table give two
  edges to the same target. No edge has the same source and target. The equality is for
  every schema that \<^verbatim>\<open>parseSQL\<close> returns and, more generally, for every schema whose
  table ids are not empty: the code takes an empty id of the owner for a missing one.
\<close>

theorem C3_edges:
  "(parseSQL sql = Inr tables \<or> (\<forall>t \<in> set tables. tid t \<noteq> []) \<longrightarrow>
       inferEdges tables =
         concat (map (\<lambda>t. concat (map (edgesOf (buildPkMap tables) t) (columns t))) tables)) \<and>
   (\<forall>e \<in> set (inferEdges tables). source e \<noteq> target e)"
proof (intro conjI impI ballI)
  assume "parseSQL sql = Inr tables \<or> (\<forall>t \<in> set tables. tid t \<noteq> [])"
  then have "\<forall>t \<in> set tables. tid t \<noteq> []" using parseSQL_tid by blast
  then show "inferEdges tables =
         concat (map (\<lambda>t. concat (map (edgesOf (buildPkMap tables) t) (columns t))) tables)"
    by (simp add: inferEdges_expected expectedEdges_def buildPkMap_eq)
next
  fix e assume "e \<in> set (inferEdges tables)"
  from inferEdges_member [OF this] show "source e \<noteq> target e"
    by (auto simp: newEdge_def)
qed

theorem C3_edges_witness:
  "parseSQL ''CREATE TABLE t1 (\<newline>A int,\<newline>B int,\<newline>PRIMARY KEY (A, B)\<newline>);CREATE TABLE t2 (\<newline>A int,\<newline>B int,\<newline>A int,\<newline>C int\<newline>);'' =
     Inr [\<lparr>tid = ''t1'', tname = ''t1'', tcomment = [], columns = [\<lparr>cname = ''A'', ctype = ''int'', ccomment = [], isPrimaryKey = True, isNullable = True\<rparr>, \<lparr>cname = ''B'', ctype = ''int'', ccomment = [], isPrimaryKey = True, isNullable = True\<rparr>]\<rparr>,
      \<lparr>tid = ''t2'', tname = ''t2'', tcomment = [], columns = [\<lparr>cname = ''A'', ctype = ''int'', ccomment = [], isPrimaryKey = False, isNullable = True\<rparr>, \<lparr>cname = ''B'', ctype = ''int'', ccomment = [], isPrimaryKey = False, isNullable = True\<rparr>, \<lparr>cname = ''A'', ctype = ''int'', ccomment = [], isPrimaryKey = False, isNullable = True\<rparr>, \<lparr>cname = ''C'', ctype = ''int'', ccomment = [], isPrimaryKey = False, isNullable = True\<rparr>]\<rparr>] \<and>
   inferEdges
     [\<lparr>tid = ''t1'', tname = ''t1'', tcomment = [], columns = [\<lparr>cname = ''A'', ctype = ''int'', ccomment = [], isPrimaryKey = True, isNullable = True\<rparr>, \<lparr>cname = ''B'', ctype = ''int'', ccomment = [], isPrimaryKey = True, isNullable = True\<rparr>]\<rparr>,
      \<lparr>tid = ''t2'', tname = ''t2'', tcomment = [], columns = [\<lparr>cname = ''A'', ctype = ''int'', ccomment = [], isPrimaryKey = False, isNullable = True\<rparr>, \<lparr>cname = ''B'', ctype = ''int'', ccomment = [], isPrimaryKey = False, isNullable = True\<rparr>, \<lparr>cname = ''A'', ctype = ''int'', ccomment = [], isPrimaryKey = False, isNullable = True\<rparr>, \<lparr>cname = ''C'', ctype = ''int'', ccomment = [], isPrimaryKey = False, isNullable = True\<rparr>]\<rparr>] =
     [newEdge 
        \<lparr>tid = ''t2'', tname = ''t2'', tcomment = [], columns = [\<lparr>cname = ''A'', ctype = ''int'', ccomment = [], isPrimaryKey = False, isNullable = True\<rparr>, \<lparr>cname = ''B'', ctype = ''int'', ccomment = [], isPrimaryKey = False, isNullable = True\<rparr>, \<lparr>cname = ''A'', ctype = ''int'', ccomment = [], isPrimaryKey = False, isNullable = True\<rparr>, \<lparr>cname = ''C'', ctype = ''int'', ccomment = [], isPrimaryKey = False, isNullable = True\<rparr>]\<rparr> 
        \<lparr>cname = ''A'', ctype = ''int'', ccomment = [], isPrimaryKey = False, isNullable = True\<rparr> ''t1'',
      newEdge 
        \<lparr>tid = ''t2'', tname = ''t2'', tcomment = [], columns = [\<lparr>cname = ''A'', ctype = ''int'', ccomment = [], isPrimaryKey = False, isNullable = True\<rparr>, \<lparr>cname = ''B'', ctype = ''int'', ccomment = [], isPrimaryKey = False, isNullable = True\<rparr>, \<lparr>cname = ''A'', ctype = ''int'', ccomment = [], isPrimaryKey = False, isNullable = True\<rparr>, \<lparr>cname = ''C'', ctype = ''int'', ccomment = [], isPrimaryKey = False, isNullable = True\<rparr>]\<rparr> 
        \<lparr>cname = ''B'', ctype = ''int'', ccomment = [], isPrimaryKey = False, isNullable = True\<rparr> ''t1'',
      newEdge 
        \<lparr>tid = ''t2'', tname = ''t2'', tcomment = [], columns = [\<lparr>cname = ''A'', ctype = ''int'', ccomment = [], isPrimaryKey = False, isNullable = True\<rparr>, \<lparr>cname = ''B'', ctype = ''int'', ccomment = [], isPrimaryKey = False, isNullable = True\<rparr>, \<lparr>cname = ''A'', ctype = ''int'', ccomment = [], isPrimaryKey = False, isNullable = True\<rparr>, \<lparr>cname = ''C'', ctype = ''int'', ccomment = [], isPrimaryKey = False, isNullable = True\<rparr>]\<rparr> 
        \<lparr>cname = ''A'', ctype = ''int'', ccomment = [], isPrimaryKey = False, isNullable = True\<rparr> ''t1''] \<and>
   source (newEdge 
        \<lparr>tid = ''t2'', tname = ''t2'', tcomment = [], columns = [\<lparr>cname = ''A'', ctype = ''int'', ccomment = [], isPrimaryKey = False, isNullable = True\<rparr>, \<lparr>cname = ''B'', ctype = ''int'', ccomment = [], isPrimaryKey = False, isNullable = True\<rparr>, \<lparr>cname = ''A'', ctype = ''int'', ccomment = [], isPrimaryKey = False, isNullable = True\<rparr>, \<lparr>cname = ''C'', ctype = ''int'', ccomment = [], isPrimaryKey = False, isNullable = True\<rparr>]\<rparr> 
        \<lparr>cname = ''A'', ctype = ''int'', ccomment = [], isPrimaryKey = False, isNullable = True\<rparr> ''t1'') = ''t2'' \<and>
   target (newEdge 
        \<lparr>tid = ''t2'', tname = ''t2'', tcomment = [], columns = [\<lparr>cname = ''A'', ctype = ''int'', ccomment = [], isPrimaryKey = False, isNullable = True\<rparr>, \<lparr>cname = ''B'', ctype = ''int'', ccomment = [], isPrimaryKey = False, isNullable = True\<rparr>, \<lparr>cname = ''A'', ctype = ''int'', ccomment = [], isPrimaryKey = False, isNullable = True\<rparr>, \<lparr>cname = ''C'', ctype = ''int'', ccomment = [], isPrimaryKey = False, isNullable = True\<rparr>]\<rparr> 
        \<lparr>cname = ''A'', ctype = ''int'', ccomment = [], isPrimaryKey = False, isNullable = True\<rparr> ''t1'') = ''t1'' \<and>
   sourceHandle (newEdge 
        \<lparr>tid = ''t2'', tname = ''t2'', tcomment = [], columns = [\<lparr>cname = ''A'', ctype = ''int'', ccomment = [], isPrimaryKey = False, isNullable = True\<rparr>, \<lparr>cname = ''B'', ctype = ''int'', ccomment = [], isPrimaryKey = False, isNullable = True\<rparr>, \<lparr>cname = ''A'', ctype = ''int'', ccomment = [], isPrimaryKey = False, isNullable = True\<rparr>, \<lparr>cname = ''C'', ctype = ''int'', ccomment = [], isPrimaryKey = False, isNullable = True\<rparr>]\<rparr> 
        \<lparr>cname = ''A'', ctype = ''int'', ccomment = [], isPrimaryKey = False, isNullable = True\<rparr> ''t1'') = ''A-source''"
proof -
  let ?W = "[\<lparr>tid = ''t1'', tname = ''t1'', tcomment = [], columns = [\<lparr>cname = ''A'', ctype = ''int'', ccomment = [], isPrimaryKey = True, isNullable = True\<rparr>, \<lparr>cname = ''B'', ctype = ''int'', ccomment = [], isPrimaryKey = True, isNullable = True\<rparr>]\<rparr>,
      \<lparr>tid = ''t2'', tname = ''t2'', tcomment = [], columns = [\<lparr>cname = ''A'', ctype = ''int'', ccomment = [], isPrimaryKey = False, isNullable = True\<rparr>, \<lparr>cname = ''B'', ctype = ''int'', ccomment = [], isPrimaryKey = False, isNullable = True\<rparr>, \<lparr>cname = ''A'', ctype = ''int'', ccomment = [], isPrimaryKey = False, isNullable = True\<rparr>, \<lparr>cname = ''C'', ctype = ''int'', ccomment = [], isPrimaryKey = False, isNullable = True\<rparr>]\<rparr>]"
  have ps: "parseSQL ''CREATE TABLE t1 (\<newline>A int,\<newline>B int,\<newline>PRIMARY KEY (A, B)\<newline>);CREATE TABLE t2 (\<newline>A int,\<newline>B int,\<newline>A int,\<newline>C int\<newline>);'' = Inr ?W" by code_simp
  have ev: "concat (map (\<lambda>t. concat (map (edgesOf (buildPkMap ?W) t) (columns t))) ?W) =
     [newEdge 
        \<lparr>tid = ''t2'', tname = ''t2'', tcomment = [], columns = [\<lparr>cname = ''A'', ctype = ''int'', ccomment = [], isPrimaryKey = False, isNullable = True\<rparr>, \<lparr>cname = ''B'', ctype = ''int'', ccomment = [], isPrimaryKey = False, isNullable = True\<rparr>, \<lparr>cname = ''A'', ctype = ''int'', ccomment = [], isPrimaryKey = False, isNullable = True\<rparr>, \<lparr>cname = ''C'', ctype = ''int'', ccomment = [], isPrimaryKey = False, isNullable = True\<rparr>]\<rparr> 
        \<lparr>cname = ''A'', ctype = ''int'', ccomment = [], isPrimaryKey = False, isNullable = True\<rparr> ''t1'',
      newEdge 
        \<lparr>tid = ''t2'', tname = ''t2'', tcomment = [], columns = [\<lparr>cname = ''A'', ctype = ''int'', ccomment = [], isPrimaryKey = False, isNullable = True\<rparr>, \<lparr>cname = ''B'', ctype = ''int'', ccomment = [], isPrimaryKey = False, isNullable = True\<rparr>, \<lparr>cname = ''A'', ctype = ''int'', ccomment = [], isPrimaryKey = False, isNullable = True\<rparr>, \<lparr>cname = ''C'', ctype = ''int'', ccomment = [], isPrimaryKey = False, isNullable = True\<rparr>]\<rparr> 
        \<lparr>cname = ''B'', ctype = ''int'', ccomment = [], isPrimaryKey = False, isNullable = True\<rparr> ''t1'',
      newEdge 
        \<lparr>tid = ''t2'', tname = ''t2'', tcomment = [], columns = [\<lparr>cname = ''A'', ctype = ''int'', ccomment = [], isPrimaryKey = False, isNullable = True\<rparr>, \<lparr>cname = ''B'', ctype = ''int'', ccomment = [], isPrimaryKey = False, isNullable = True\<rparr>, \<lparr>cname = ''A'', ctype = ''int'', ccomment = [], isPrimaryKey = False, isNullable = True\<rparr>, \<lparr>cname = ''C'', ctype = ''int'', ccomment = [], isPrimaryKey = False, isNullable = True\<rparr>]\<rparr> 
        \<lparr>cname = ''A'', ctype = ''int'', ccomment = [], isPrimaryKey = False, isNullable = True\<rparr> ''t1'']"
    by code_simp
  from C3_edges [where tables = "?W" and sql = "''CREATE TABLE t1 (\<newline>A int,\<newline>B int,\<newline>PRIMARY KEY (A, B)\<newline>);CREATE TABLE t2 (\<newline>A int,\<newline>B int,\<newline>A int,\<newline>C int\<newline>);''"] ps
  have "inferEdges ?W =
     concat (map (\<lambda>t. concat (map (edgesOf (buildPkMap ?W) t) (columns t))) ?W)"
    by blast
  with ev have "inferEdges ?W =
     [newEdge 
        \<lparr>tid = ''t2'', tname = ''t2'', tcomment = [], columns = [\<lparr>cname = ''A'', ctype = ''int'', ccomment = [], isPrimaryKey = False, isNullable = True\<rparr>, \<lparr>cname = ''B'', ctype = ''int'', ccomment = [], isPrimaryKey = False, isNullable = True\<rparr>, \<lparr>cname = ''A'', ctype = ''int'', ccomment = [], isPrimaryKey = False, isNullable = True\<rparr>, \<lparr>cname = ''C'', ctype = ''int'', ccomment = [], isPrimaryKey = False, isNullable = True\<rparr>]\<rparr> 
        \<lparr>cname = ''A'', ctype = ''int'', ccomment = [], isPrimaryKey = False, isNullable = True\<rparr> ''t1'',
      newEdge 
        \<lparr>tid = ''t2'', tname = ''t2'', tcomment = [], columns = [\<lparr>cname = ''A'', ctype = ''int'', ccomment = [], isPrimaryKey = False, isNullable = True\<rparr>, \<lparr>cname = ''B'', ctype = ''int'', ccomment = [], isPrimaryKey = False, isNullable = True\<rparr>, \<lparr>cname = ''A'', ctype = ''int'', ccomment = [], isPrimaryKey = False, isNullable = True\<rparr>, \<lparr>cname = ''C'', ctype = ''int'', ccomment = [], isPrimaryKey = False, isNullable = True\<rparr>]\<rparr> 
        \<lparr>cname = ''B'', ctype = ''int'', ccomment = [], isPrimaryKey = False, isNullable = True\<rparr> ''t1'',
      newEdge 
        \<lparr>tid = ''t2'', tname = ''t2'', tcomment = [], columns = [\<lparr>cname = ''A'', ctype = ''int'', ccomment = [], isPrimaryKey = False, isNullable = True\<rparr>, \<lparr>cname = ''B'', ctype = ''int'', ccomment = [], isPrimaryKey = False, isNullable = True\<rparr>, \<lparr>cname = ''A'', ctype = ''int'', ccomment = [], isPrimaryKey = False, isNullable = True\<rparr>, \<lparr>cname = ''C'', ctype = ''int'', ccomment = [], isPrimaryKey = False, isNullable = True\<rparr>]\<rparr> 
        \<lparr>cname = ''A'', ctype = ''int'', ccomment = [], isPrimaryKey = False, isNullable = True\<rparr> ''t1'']"
    by (simp only:)
  with ps show ?thesis by (simp add: newEdge_def)
qed

text \<open>
  C5. Every edge comes from a column whose name is not in the exclusion set: the name
  that an edge bears in its handles is never one of \<^verbatim>\<open>COMPANY\<close>, \<^verbatim>\<open>TRAN_TIMESTAMP\<close>,
  \<^verbatim>\<open>USER_ID\<close> and the other excluded names, whatever the tables and their primary keys.
\<close>

theorem C5_no_edge_via_ignored:
  "\<forall>e \<in> set (inferEdges tables).
     (\<exists>t \<in> set tables. \<exists>c \<in> set (columns t).
        cname c \<notin> IGNORED_FK_COLUMNS \<and> e = newEdge t c (target e)) \<and>
     (\<forall>n. sourceHandle e = n @ ''-source'' \<or> targetHandle e = n @ ''-target''
        \<longrightarrow> n \<notin> IGNORED_FK_COLUMNS)"
proof
  fix e assume "e \<in> set (inferEdges tables)"
  from inferEdges_member [OF this] obtain t c i where
    t: "t \<in> set tables" and c: "c \<in> set (columns t)" and n: "cname c \<notin> IGNORED_FK_COLUMNS"
    and e: "e = newEdge t c i" by blast
  have "i = target e" using e by (simp add: newEdge_def)
  with e have e': "e = newEdge t c (target e)" by simp
  have "\<forall>n. sourceHandle e = n @ ''-source'' \<or> targetHandle e = n @ ''-target''
        \<longrightarrow> n \<notin> IGNORED_FK_COLUMNS"
    using n e by (auto simp: newEdge_def)
  with t c n e' show "(\<exists>t \<in> set tables. \<exists>c \<in> set (columns t).
        cname c \<notin> IGNORED_FK_COLUMNS \<and> e = newEdge t c (target e)) \<and>
     (\<forall>n. sourceHandle e = n @ ''-source'' \<or> targetHandle e = n @ ''-target''
        \<longrightarrow> n \<notin> IGNORED_FK_COLUMNS)"
    by blast
qed

theorem C5_no_edge_via_ignored_witness:
  "inferEdges
     [\<lparr>tid = ''t1'', tname = ''t1'', tcomment = [], columns = [\<lparr>cname = ''COMPANY'', ctype = ''int'', ccomment = [], isPrimaryKey = True, isNullable = True\<rparr>, \<lparr>cname = ''A'', ctype = ''int'', ccomment = [], isPrimaryKey = True, isNullable = True\<rparr>]\<rparr>,
      \<lparr>tid = ''t2'', tname = ''t2'', tcomment = [], columns = [\<lparr>cname = ''COMPANY'', ctype = ''int'', ccomment = [], isPrimaryKey = False, isNullable = True\<rparr>, \<lparr>cname = ''A'', ctype = ''int'', ccomment = [], isPrimaryKey = False, isNullable = True\<rparr>]\<rparr>] =
     [newEdge 
        \<lparr>tid = ''t2'', tname = ''t2'', tcomment = [], columns = [\<lparr>cname = ''COMPANY'', ctype = ''int'', ccomment = [], isPrimaryKey = False, isNullable = True\<rparr>, \<lparr>cname = ''A'', ctype = ''int'', ccomment = [], isPrimaryKey = False, isNullable = True\<rparr>]\<rparr> 
        \<lparr>cname = ''A'', ctype = ''int'', ccomment = [], isPrimaryKey = False, isNullable = True\<rparr> ''t1''] \<and>
   sourceHandle (newEdge 
        \<lparr>tid = ''t2'', tname = ''t2'', tcomment = [], columns = [\<lparr>cname = ''COMPANY'', ctype = ''int'', ccomment = [], isPrimaryKey = False, isNullable = True\<rparr>, \<lparr>cname = ''A'', ctype = ''int'', ccomment = [], isPrimaryKey = False, isNullable = True\<rparr>]\<rparr> 
        \<lparr>cname = ''A'', ctype = ''int'', ccomment = [], isPrimaryKey = False, isNullable = True\<rparr> ''t1'') = ''A'' @ ''-source'' \<and>
   ''A'' \<notin> IGNORED_FK_COLUMNS \<and> ''COMPANY'' \<in> IGNORED_FK_COLUMNS"
proof -
  let ?W = "[\<lparr>tid = ''t1'', tname = ''t1'', tcomment = [], columns = [\<lparr>cname = ''COMPANY'', ctype = ''int'', ccomment = [], isPrimaryKey = True, isNullable = True\<rparr>, \<lparr>cname = ''A'', ctype = ''int'', ccomment = [], isPrimaryKey = True, isNullable = True\<rparr>]\<rparr>,
      \<lparr>tid = ''t2'', tname = ''t2'', tcomment = [], columns = [\<lparr>cname = ''COMPANY'', ctype = ''int'', ccomment = [], isPrimaryKey = False, isNullable = True\<rparr>, \<lparr>cname = ''A'', ctype = ''int'', ccomment = [], isPrimaryKey = False, isNullable = True\<rparr>]\<rparr>]"
  let ?e = "newEdge 
        \<lparr>tid = ''t2'', tname = ''t2'', tcomment = [], columns = [\<lparr>cname = ''COMPANY'', ctype = ''int'', ccomment = [], isPrimaryKey = False, isNullable = True\<rparr>, \<lparr>cname = ''A'', ctype = ''int'', ccomment = [], isPrimaryKey = False, isNullable = True\<rparr>]\<rparr> 
        \<lparr>cname = ''A'', ctype = ''int'', ccomment = [], isPrimaryKey = False, isNullable = True\<rparr> ''t1''"
  have ev: "inferEdges ?W = [?e]" by code_simp
  have h: "sourceHandle ?e = ''A'' @ ''-source''" by (simp add: newEdge_def)
  from C5_no_edge_via_ignored [of ?W] ev
  have "\<forall>n. sourceHandle ?e = n @ ''-source'' \<or> targetHandle ?e = n @ ''-target''
        \<longrightarrow> n \<notin> IGNORED_FK_COLUMNS"
    by simp
  with h have "''A'' \<notin> IGNORED_FK_COLUMNS" by blast
  moreover have "''COMPANY'' \<in> IGNORED_FK_COLUMNS" by (simp add: IGNORED_FK_COLUMNS_def)
  ultimately show ?thesis using ev h by blast
qed

text \<open>
  C6. In every state that the selection machine reaches from a mounted diagram, a table
  node is dimmed if and only if there is a selection and the node is neither the selected
  table nor in the entry of the adjacency index for the selected id; an edge is
  emphasised if and only if there is a selection and one of its ends is the selected id,
  and it is dimmed if and only if there is a selection and it is not emphasised; with no
  selection, no node and no edge is dimmed. The entry of the index for an id is the set
  of the tables joined to it by an edge. The diagram is mounted on a schema that
  \<^verbatim>\<open>parseSQL\<close> returns or, more generally, on one whose table ids are not empty: the
  code takes the empty string as selected id for no selection in two of its tests.
\<close>

theorem C6_highlight:
  assumes "parseSQL sql = Inr tables \<or> (\<forall>t \<in> set tables. tid t \<noteq> [])"
    and "run (mount tables) evs = Some d"
  shows "(\<forall>n \<in> set (nodes d).
            dimmed n = Some (nodeDimmed d n) \<and>
            (selectedNodeId d = None \<longrightarrow> dimmed n = Some False)) \<and>
         (\<forall>e \<in> set (edges d).
            animated e = edgeEmphasized d e \<and>
            edgeDimmed e = (selectedNodeId d \<noteq> None \<and> \<not> edgeEmphasized d e) \<and>
            (selectedNodeId d = None \<longrightarrow> \<not> edgeDimmed e)) \<and>
         (\<forall>s. neighbours (edges d) s = linkedTo (edges d) s)"
proof -
  from assms(1) have "\<forall>t \<in> set tables. tid t \<noteq> []" using parseSQL_tid by blast
  then have "wellSelected (mount tables)" by (rule mount_wellSelected)
  then have "wellSelected d" using assms(2) by (rule run_wellSelected)
  then have s: "styled d" by (simp add: wellSelected_def)
  show ?thesis
  proof (intro conjI ballI impI)
    fix n assume n: "n \<in> set (nodes d)"
    with s show "dimmed n = Some (nodeDimmed d n)" unfolding styled_def by blast
    assume "selectedNodeId d = None"
    with s n show "dimmed n = Some False" unfolding styled_def by (simp add: nodeDimmed_def)
  next
    fix e assume e: "e \<in> set (edges d)"
    with s show "animated e = edgeEmphasized d e" unfolding styled_def by blast
    from s e have o: "opacity e =
        Some (if selectedNodeId d \<noteq> None \<and> \<not> edgeEmphasized d e then 1 / 5 else 1)"
      unfolding styled_def by blast
    then show "edgeDimmed e = (selectedNodeId d \<noteq> None \<and> \<not> edgeEmphasized d e)"
      by (simp add: edgeDimmed_def)
    assume "selectedNodeId d = None"
    with o show "\<not> edgeDimmed e" by (simp add: edgeDimmed_def)
  next
    show "\<forall>s. neighbours (edges d) s = linkedTo (edges d) s"
      by (simp add: neighbours_linkedTo)
  qed
qed

theorem C6_highlight_witness:
  "parseSQL ''CREATE TABLE t1 (\<newline>A int,\<newline>PRIMARY KEY (A)\<newline>);CREATE TABLE t2 (\<newline>A int\<newline>);CREATE TABLE t3 (\<newline>B int\<newline>);CREATE TABLE t4 (\<newline>B int,\<newline>PRIMARY KEY (B)\<newline>);'' =
     Inr [\<lparr>tid = ''t1'', tname = ''t1'', tcomment = [], columns = [\<lparr>cname = ''A'', ctype = ''int'', ccomment = [], isPrimaryKey = True, isNullable = True\<rparr>]\<rparr>,
      \<lparr>tid = ''t2'', tname = ''t2'', tcomment = [], columns = [\<lparr>cname = ''A'', ctype = ''int'', ccomment = [], isPrimaryKey = False, isNullable = True\<rparr>]\<rparr>,
      \<lparr>tid = ''t3'', tname = ''t3'', tcomment = [], columns = [\<lparr>cname = ''B'', ctype = ''int'', ccomment = [], isPrimaryKey = False, isNullable = True\<rparr>]\<rparr>,
      \<lparr>tid = ''t4'', tname = ''t4'', tcomment = [], columns = [\<lparr>cname = ''B'', ctype = ''int'', ccomment = [], isPrimaryKey = True, isNullable = True\<rparr>]\<rparr>] \<and>
   (\<exists>d. run (mount
     [\<lparr>tid = ''t1'', tname = ''t1'', tcomment = [], columns = [\<lparr>cname = ''A'', ctype = ''int'', ccomment = [], isPrimaryKey = True, isNullable = True\<rparr>]\<rparr>,
      \<lparr>tid = ''t2'', tname = ''t2'', tcomment = [], columns = [\<lparr>cname = ''A'', ctype = ''int'', ccomment = [], isPrimaryKey = False, isNullable = True\<rparr>]\<rparr>,
      \<lparr>tid = ''t3'', tname = ''t3'', tcomment = [], columns = [\<lparr>cname = ''B'', ctype = ''int'', ccomment = [], isPrimaryKey = False, isNullable = True\<rparr>]\<rparr>,
      \<lparr>tid = ''t4'', tname = ''t4'', tcomment = [], columns = [\<lparr>cname = ''B'', ctype = ''int'', ccomment = [], isPrimaryKey = True, isNullable = True\<rparr>]\<rparr>]) [PaneClick, NodeClick ''t1''] = Some d \<and>
     selectedNodeId d = Some ''t1'' \<and>
     map (\<lambda>n. (nid n, dimmed n)) (nodes d) =
       [(''t1'', Some False), (''t2'', Some False), (''t3'', Some True), (''t4'', Some True)] \<and>
     map (\<lambda>e. (source e, target e, animated e, edgeDimmed e)) (edges d) =
       [(''t2'', ''t1'', True, False), (''t3'', ''t4'', False, True)] \<and>
     (\<forall>n \<in> set (nodes d). dimmed n = Some (nodeDimmed d n)) \<and>
     (\<forall>e \<in> set (edges d). animated e = edgeEmphasized d e \<and>
        edgeDimmed e = (selectedNodeId d \<noteq> None \<and> \<not> edgeEmphasized d e)))"
proof -
  let ?W = "[\<lparr>tid = ''t1'', tname = ''t1'', tcomment = [], columns = [\<lparr>cname = ''A'', ctype = ''int'', ccomment = [], isPrimaryKey = True, isNullable = True\<rparr>]\<rparr>,
      \<lparr>tid = ''t2'', tname = ''t2'', tcomment = [], columns = [\<lparr>cname = ''A'', ctype = ''int'', ccomment = [], isPrimaryKey = False, isNullable = True\<rparr>]\<rparr>,
      \<lparr>tid = ''t3'', tname = ''t3'', tcomment = [], columns = [\<lparr>cname = ''B'', ctype = ''int'', ccomment = [], isPrimaryKey = False, isNullable = True\<rparr>]\<rparr>,
      \<lparr>tid = ''t4'', tname = ''t4'', tcomment = [], columns = [\<lparr>cname = ''B'', ctype = ''int'', ccomment = [], isPrimaryKey = True, isNullable = True\<rparr>]\<rparr>]"
  have ps: "parseSQL ''CREATE TABLE t1 (\<newline>A int,\<newline>PRIMARY KEY (A)\<newline>);CREATE TABLE t2 (\<newline>A int\<newline>);CREATE TABLE t3 (\<newline>B int\<newline>);CREATE TABLE t4 (\<newline>B int,\<newline>PRIMARY KEY (B)\<newline>);'' = Inr ?W" by code_simp
  have ev: "map_option (\<lambda>d. (selectedNodeId d, map (\<lambda>n. (nid n, dimmed n)) (nodes d),
                map (\<lambda>e. (source e, target e, animated e, edgeDimmed e)) (edges d)))
      (run (mount ?W) [PaneClick, NodeClick ''t1'']) =
    Some (Some ''t1'',
       [(''t1'', Some False), (''t2'', Some False), (''t3'', Some True), (''t4'', Some True)],
       [(''t2'', ''t1'', True, False), (''t3'', ''t4'', False, True)])"
    by code_simp
  then obtain d where d: "run (mount ?W) [PaneClick, NodeClick ''t1''] = Some d"
    and p: "(selectedNodeId d, map (\<lambda>n. (nid n, dimmed n)) (nodes d),
                map (\<lambda>e. (source e, target e, animated e, edgeDimmed e)) (edges d)) =
      (Some ''t1'',
       [(''t1'', Some False), (''t2'', Some False), (''t3'', Some True), (''t4'', Some True)],
       [(''t2'', ''t1'', True, False), (''t3'', ''t4'', False, True)])"
    unfolding map_option_eq_Some by (elim exE conjE)
  from p have p1: "selectedNodeId d = Some ''t1''"
    and p2: "map (\<lambda>n. (nid n, dimmed n)) (nodes d) =
       [(''t1'', Some False), (''t2'', Some False), (''t3'', Some True), (''t4'', Some True)]"
    and p3: "map (\<lambda>e. (source e, target e, animated e, edgeDimmed e)) (edges d) =
       [(''t2'', ''t1'', True, False), (''t3'', ''t4'', False, True)]"
    by (simp_all only: prod.inject)
  from C6_highlight [OF disjI1 [OF ps] d]
  have n: "\<forall>n \<in> set (nodes d). dimmed n = Some (nodeDimmed d n)"
    and e: "\<forall>e \<in> set (edges d). animated e = edgeEmphasized d e \<and>
        edgeDimmed e = (selectedNodeId d \<noteq> None \<and> \<not> edgeEmphasized d e)"
    by blast+
  show ?thesis
  proof (intro conjI exI [of _ d])
    show "parseSQL ''CREATE TABLE t1 (\<newline>A int,\<newline>PRIMARY KEY (A)\<newline>);CREATE TABLE t2 (\<newline>A int\<newline>);CREATE TABLE t3 (\<newline>B int\<newline>);CREATE TABLE t4 (\<newline>B int,\<newline>PRIMARY KEY (B)\<newline>);'' = Inr ?W" by (rule ps)
    show "run (mount ?W) [PaneClick, NodeClick ''t1''] = Some d" by (rule d)
    show "selectedNodeId d = Some ''t1''" by (rule p1)
    show "map (\<lambda>n. (nid n, dimmed n)) (nodes d) =
       [(''t1'', Some False), (''t2'', Some False), (''t3'', Some True), (''t4'', Some True)]"
      by (rule p2)
    show "map (\<lambda>e. (source e, target e, animated e, edgeDimmed e)) (edges d) =
       [(''t2'', ''t1'', True, False), (''t3'', ''t4'', False, True)]"
      by (rule p3)
    show "\<forall>n \<in> set (nodes d). dimmed n = Some (nodeDimmed d n)" by (rule n)
    show "\<forall>e \<in> set (edges d). animated e = edgeEmphasized d e \<and>
        edgeDimmed e = (selectedNodeId d \<noteq> None \<and> \<not> edgeEmphasized d e)"
      by (rule e)
  qed
qed

section \<open>The error paths of the callers\<close>

text \<open>
  In \<^verbatim>\<open>handleParse\<close>, when the parse yields no table the no-tables message is set and
  nothing else changes: the tables parsed before stay, and so do the view and the input.
  When the call in the \<^verbatim>\<open>try\<close> block throws, the failed-to-parse message is set and
  again nothing else changes.
\<close>

lemma handleParse_error_paths:
  "(parser (sqlInput st) = Inr [] \<longrightarrow>
      handleParseWith parser st = st\<lparr>error := Some ''No tables found in the provided SQL.''\<rparr> \<and>
      parsedTables (handleParseWith parser st) = parsedTables st \<and>
      viewMode (handleParseWith parser st) = viewMode st) \<and>
   (parser (sqlInput st) = Inl e \<longrightarrow>
      handleParseWith parser st =
        st\<lparr>error := Some ''Failed to parse SQL. Please check the syntax.''\<rparr> \<and>
      parsedTables (handleParseWith parser st) = parsedTables st \<and>
      viewMode (handleParseWith parser st) = viewMode st) \<and>
   (parseSQL (sqlInput st) = Inr [] \<longrightarrow>
      handleParse st = st\<lparr>error := Some ''No tables found in the provided SQL.''\<rparr> \<and>
      parsedTables (handleParse st) = parsedTables st)"
  by (simp add: handleParse_def handleParseWith_def)

text \<open>The upload callback has neither the test for the empty result nor the \<^verbatim>\<open>try\<close>:
  whenever the parse of the file yields no table, the empty result replaces the tables
  parsed before and the message stays as it was.\<close>

lemma upload_empty_result:
  "parser content = Inr [] \<Longrightarrow>
   uploadParsedWith parser content st = st\<lparr>sqlInput := content, parsedTables := []\<rparr> \<and>
   parsedTables (uploadParsedWith parser content st) = [] \<and>
   error (uploadParsedWith parser content st) = error st"
  by (simp add: uploadParsedWith_def)

text \<open>
  C8. When an extraction run yields no table, the caller is to show the no-tables
  message and keep the schema parsed before. \<^verbatim>\<open>handleParse\<close> does so, the upload
  callback does not. With one table on display and no message, the upload of a file
  whose text is \<^verbatim>\<open>DROP TABLE x; SELECT 1;\<close> parses to no table, replaces the table on
  display by the empty schema and shows no message, while \<^verbatim>\<open>handleParse\<close> on the same
  text keeps the table and sets the message.
\<close>

theorem C8_upload_drops_schema:
  "parseSQL ''DROP TABLE x; SELECT 1;'' = Inr [] \<and>
   uploadParsed ''DROP TABLE x; SELECT 1;''
       \<lparr>sqlInput = ''CREATE TABLE t (a int)'',
         parsedTables = [\<lparr>tid = ''t'', tname = ''t'', tcomment = [], columns = [\<lparr>cname = ''a'', ctype = ''int'', ccomment = [], isPrimaryKey = False, isNullable = True\<rparr>]\<rparr>],
         viewMode = SQL_INPUT, error = None\<rparr> =
     \<lparr>sqlInput = ''DROP TABLE x; SELECT 1;'',
       parsedTables = [],
       viewMode = SQL_INPUT, error = None\<rparr> \<and>
   handleParse
       \<lparr>sqlInput = ''DROP TABLE x; SELECT 1;'',
         parsedTables = [\<lparr>tid = ''t'', tname = ''t'', tcomment = [], columns = [\<lparr>cname = ''a'', ctype = ''int'', ccomment = [], isPrimaryKey = False, isNullable = True\<rparr>]\<rparr>],
         viewMode = SQL_INPUT, error = None\<rparr> =
     \<lparr>sqlInput = ''DROP TABLE x; SELECT 1;'',
       parsedTables = [\<lparr>tid = ''t'', tname = ''t'', tcomment = [], columns = [\<lparr>cname = ''a'', ctype = ''int'', ccomment = [], isPrimaryKey = False, isNullable = True\<rparr>]\<rparr>],
       viewMode = SQL_INPUT, error = Some ''No tables found in the provided SQL.''\<rparr>"
proof -
  have p: "parseSQL ''DROP TABLE x; SELECT 1;'' = Inr []" by code_simp
  show ?thesis
    by (simp add: p uploadParsed_def uploadParsedWith_def handleParse_def handleParseWith_def)
qed

end
